(* ===== verification/Prelude.thy ===== *)
theory Prelude
  imports Complex_Main
begin

text \<open>
  Shared vocabulary of the development. Python exceptions are values of
  \<open>py_error\<close>; a computation that may raise returns \<open>'a result\<close>, with \<open>Inl\<close>
  the exception. \<open>rbind\<close> sequences two such computations the way Python
  sequences two statements (the first exception aborts the rest), and
  \<open>mapR\<close> is a \<^verbatim>\<open>for\<close> loop that appends one computed value per element.
  The collection \<open>result_simps\<close> holds the rewrite rules for these
  combinators that the component proofs use.
\<close>

named_theorems result_simps "rewrite rules for the exception combinators"

datatype py_error =
    ValueError string      \<comment> \<open>\<^verbatim>\<open>float(s)\<close> on a string that is no float literal\<close>
  | IndexError             \<comment> \<open>an index out of range, \<^verbatim>\<open>ssl[1]\<close> or \<^verbatim>\<open>l[-1]\<close>\<close>
  | UnboundLocalError      \<comment> \<open>\<^verbatim>\<open>scale\<close> read before any assignment line set it\<close>
  | ZeroDivisionError      \<comment> \<open>\<^verbatim>\<open>B_scale/R_scale\<close> with \<^verbatim>\<open>R_scale == 0.0\<close>\<close>
  | OverflowError          \<comment> \<open>\<^verbatim>\<open>x**2\<close> whose finite result overflows\<close>
  | FileNotFoundError string
  | NameError              \<comment> \<open>a closure reads a variable of \<^verbatim>\<open>my_patch\<close> that is not bound yet\<close>

type_synonym 'a result = "py_error + 'a"

definition rbind :: "'a result \<Rightarrow> ('a \<Rightarrow> 'b result) \<Rightarrow> 'b result" where
  "rbind m f = (case m of Inl e \<Rightarrow> Inl e | Inr x \<Rightarrow> f x)"

lemma rbind_Inl [simp, result_simps]: "rbind (Inl e) f = Inl e"
  by (simp add: rbind_def)

lemma rbind_Inr [simp, result_simps]: "rbind (Inr x) f = f x"
  by (simp add: rbind_def)

lemma rbind_eq_Inr [result_simps]:
  "rbind m f = Inr y \<longleftrightarrow> (\<exists>x. m = Inr x \<and> f x = Inr y)"
  by (cases m) (simp_all add: rbind_def)

lemma rbind_eq_Inl [result_simps]:
  "rbind m f = Inl e \<longleftrightarrow> m = Inl e \<or> (\<exists>x. m = Inr x \<and> f x = Inl e)"
  by (cases m) (simp_all add: rbind_def)

fun mapR :: "('a \<Rightarrow> 'b result) \<Rightarrow> 'a list \<Rightarrow> 'b list result" where
  "mapR f [] = Inr []"
| "mapR f (x # xs) = rbind (f x) (\<lambda>y. rbind (mapR f xs) (\<lambda>ys. Inr (y # ys)))"

lemma mapR_Inr_length [result_simps]:
  "mapR f xs = Inr ys \<Longrightarrow> length ys = length xs"
  by (induction xs arbitrary: ys) (auto simp: rbind_eq_Inr)

lemma mapR_Inr_nth:
  "mapR f xs = Inr ys \<Longrightarrow> i < length xs \<Longrightarrow> f (xs ! i) = Inr (ys ! i)"
proof (induction xs arbitrary: ys i)
  case Nil
  then show ?case by simp
next
  case (Cons x xs)
  then obtain y ys' where "f x = Inr y" "mapR f xs = Inr ys'" "ys = y # ys'"
    by (auto simp: rbind_eq_Inr)
  with Cons show ?case by (cases i) auto
qed

lemma mapR_Inr_iff:
  "mapR f xs = Inr ys \<longleftrightarrow> length ys = length xs \<and> (\<forall>i < length xs. f (xs ! i) = Inr (ys ! i))"
proof (induction xs arbitrary: ys)
  case Nil
  then show ?case by auto
next
  case (Cons x xs)
  show ?case
  proof
    assume "mapR f (x # xs) = Inr ys"
    then show "length ys = length (x # xs) \<and> (\<forall>i < length (x # xs). f ((x # xs) ! i) = Inr (ys ! i))"
      using mapR_Inr_length mapR_Inr_nth by blast
  next
    assume r: "length ys = length (x # xs) \<and> (\<forall>i < length (x # xs). f ((x # xs) ! i) = Inr (ys ! i))"
    then obtain y ys' where ys: "ys = y # ys'" by (cases ys) auto
    with r have "f x = Inr y" by force
    moreover from r ys have "mapR f xs = Inr ys'"
      using Cons.IH by force
    ultimately show "mapR f (x # xs) = Inr ys" by (simp add: ys)
  qed
qed

lemma mapR_Inr_map [result_simps]: "mapR (\<lambda>x. Inr (g x)) xs = Inr (map g xs)"
  by (induction xs) simp_all

lemma mapR_append [result_simps]:
  "mapR f (xs @ ys) = rbind (mapR f xs) (\<lambda>as. rbind (mapR f ys) (\<lambda>bs. Inr (as @ bs)))"
  by (induction xs) (auto simp: rbind_def split: sum.splits)

text \<open>Python's \<^verbatim>\<open>xs[-1]\<close>: the last element, IndexError on the empty list.\<close>

definition py_last :: "'a list \<Rightarrow> 'a result" where
  "py_last xs = (if xs = [] then Inl IndexError else Inr (last xs))"

text \<open>Python's \<^verbatim>\<open>xs[i]\<close> for \<open>i \<ge> 0\<close>: IndexError out of range.\<close>

definition py_nth :: "'a list \<Rightarrow> nat \<Rightarrow> 'a result" where
  "py_nth xs i = (if i < length xs then Inr (xs ! i) else Inl IndexError)"

lemma py_last_Cons [simp]: "py_last (x # xs) = Inr (last (x # xs))"
  by (simp add: py_last_def)

lemma py_nth_Cons_0 [simp]: "py_nth (x # xs) 0 = Inr x"
  by (simp add: py_nth_def)

lemma py_nth_Cons_Suc [simp]: "py_nth (x # xs) (Suc i) = py_nth xs i"
  by (simp add: py_nth_def)

lemma py_nth_Nil [simp]: "py_nth [] i = Inl IndexError"
  by (simp add: py_nth_def)

end
