(* ===== verification/PyStr.thy ===== *)
theory PyStr
  imports Prelude
begin

text \<open>
  The Python \<^verbatim>\<open>str\<close> methods that \<^verbatim>\<open>src/scale_vmec.py\<close> calls, with CPython's
  semantics. A Python string is a sequence of code points; the model's
  \<open>string\<close> is a list of \<open>char\<close>, so it covers the code points below 256
  (Latin-1), and the whitespace and case tables below are CPython's
  restricted to that range. Each definition follows the CPython routine it
  names (\<^verbatim>\<open>Objects/stringlib/split.h\<close>, \<^verbatim>\<open>do_strip\<close>, \<^verbatim>\<open>_PyUnicode_ToLowercase\<close>).
\<close>

section \<open>Character classes\<close>

text \<open>\<^verbatim>\<open>str.isspace\<close> on one code point below 256: tab, LF, VT, FF, CR, the
  four separators 0x1C--0x1F, space, NEL (0x85) and NBSP (0xA0).\<close>

definition py_isspace :: "char \<Rightarrow> bool" where
  "py_isspace c \<longleftrightarrow>
     (let n = (of_char c :: nat)
      in (9 \<le> n \<and> n \<le> 13) \<or> (28 \<le> n \<and> n \<le> 32) \<or> n = 133 \<or> n = 160)"

text \<open>\<^verbatim>\<open>str.lower\<close> on one code point below 256: A--Z and the Latin-1
  capitals (0xC0--0xDE but the multiplication sign 0xD7) move up by 32.\<close>

definition py_lower_char :: "char \<Rightarrow> char" where
  "py_lower_char c =
     (let n = (of_char c :: nat)
      in if (65 \<le> n \<and> n \<le> 90) \<or> (192 \<le> n \<and> n \<le> 222 \<and> n \<noteq> 215)
         then char_of (n + 32) else c)"

definition py_lower :: "string \<Rightarrow> string" where
  "py_lower s = map py_lower_char s"

text \<open>\<^verbatim>\<open>str.strip()\<close>: whitespace removed at the left end, then at the right end.\<close>

definition py_strip :: "string \<Rightarrow> string" where
  "py_strip s = rev (dropWhile py_isspace (rev (dropWhile py_isspace s)))"

section \<open>Splitting and joining\<close>

text \<open>\<^verbatim>\<open>s.split(c)\<close> for a one-character separator: every occurrence of \<open>c\<close>
  separates two fields, so empty fields are kept and there is always one
  field more than there are separators.\<close>

fun split_sep :: "char \<Rightarrow> string \<Rightarrow> string list" where
  "split_sep c [] = [[]]"
| "split_sep c (x # xs) =
     (let r = split_sep c xs in if x = c then [] # r else (x # hd r) # tl r)"

text \<open>\<^verbatim>\<open>s.split(c, 1)\<close>: split at the first occurrence of \<open>c\<close> only.\<close>

definition split_once :: "char \<Rightarrow> string \<Rightarrow> string list" where
  "split_once c s =
     (if c \<in> set s then [takeWhile (\<lambda>x. x \<noteq> c) s, tl (dropWhile (\<lambda>x. x \<noteq> c) s)]
      else [s])"

text \<open>\<^verbatim>\<open>s.split()\<close>: the maximal runs of non-whitespace, in order (CPython's
  \<^verbatim>\<open>split_whitespace\<close>: skip whitespace, take a word, repeat). \<open>w\<close> is the word
  read so far, reversed.\<close>

fun split_ws_acc :: "string \<Rightarrow> string \<Rightarrow> string list" where
  "split_ws_acc w [] = (if w = [] then [] else [rev w])"
| "split_ws_acc w (c # cs) =
     (if py_isspace c
      then (if w = [] then split_ws_acc [] cs else rev w # split_ws_acc [] cs)
      else split_ws_acc (c # w) cs)"

definition split_ws :: "string \<Rightarrow> string list" where
  "split_ws s = split_ws_acc [] s"

text \<open>\<^verbatim>\<open>s.split(None, 1)\<close>: the first word, and the rest of the string with
  its leading whitespace removed (its trailing whitespace is kept), when
  that rest is not empty.\<close>

definition split_ws1 :: "string \<Rightarrow> string list" where
  "split_ws1 s =
     (let s1 = dropWhile py_isspace s
      in if s1 = [] then []
         else let w = takeWhile (\<lambda>c. \<not> py_isspace c) s1;
                  rest = dropWhile py_isspace (dropWhile (\<lambda>c. \<not> py_isspace c) s1)
              in if rest = [] then [w] else [w, rest])"

text \<open>\<^verbatim>\<open>sep.join(xs)\<close>.\<close>

fun py_join :: "string \<Rightarrow> string list \<Rightarrow> string" where
  "py_join sep [] = []"
| "py_join sep [x] = x"
| "py_join sep (x # y # zs) = x @ sep @ py_join sep (y # zs)"

section \<open>Lemmas\<close>

subsection \<open>join\<close>

lemma py_join_Cons_Cons [simp]:
  "py_join sep ((x # w) # ws) = x # py_join sep (w # ws)"
  by (cases ws) simp_all

lemma py_join_Cons_nonempty:
  "ws \<noteq> [] \<Longrightarrow> py_join sep (w # ws) = w @ sep @ py_join sep ws"
  by (cases ws) simp_all

lemma length_py_join:
  "length (py_join sep xs) = sum_list (map length xs) + length sep * (length xs - 1)"
  by (induction sep xs rule: py_join.induct) simp_all

lemma py_join_map_const_length:
  assumes "\<forall>x \<in> set xs. length (f x) = k"
  shows "length (py_join sep (map f xs)) = length xs * k + length sep * (length xs - 1)"
proof -
  have "sum_list (map length (map f xs)) = length xs * k"
    using assms by (induction xs) auto
  then show ?thesis by (simp add: length_py_join)
qed

subsection \<open>split with a separator\<close>

lemma split_sep_not_Nil [simp]: "split_sep c s \<noteq> []"
  by (induction s) (simp_all add: Let_def)

lemma py_join_split_sep: "py_join [c] (split_sep c s) = s"
proof (induction s)
  case Nil
  then show ?case by simp
next
  case (Cons x xs)
  obtain w ws where r: "split_sep c xs = w # ws"
    using split_sep_not_Nil by (cases "split_sep c xs") blast+
  show ?case
  proof (cases "x = c")
    case True
    then show ?thesis using Cons.IH r by simp
  next
    case False
    then show ?thesis using Cons.IH r by simp
  qed
qed

lemma split_sep_no_sep: "w \<in> set (split_sep c s) \<Longrightarrow> c \<notin> set w"
proof (induction s arbitrary: w)
  case Nil
  then show ?case by simp
next
  case (Cons x xs)
  obtain v vs where r: "split_sep c xs = v # vs"
    using split_sep_not_Nil by (cases "split_sep c xs") blast+
  from Cons.prems r Cons.IH show ?case
    by (auto simp: Let_def split: if_splits)
qed

lemma length_split_sep: "length (split_sep c s) = Suc (count_list s c)"
proof (induction s)
  case Nil
  then show ?case by simp
next
  case (Cons x xs)
  then show ?case
    by (cases "split_sep c xs") (auto simp: Let_def)
qed

lemma split_sep_no_occurrence: "c \<notin> set s \<Longrightarrow> split_sep c s = [s]"
  by (induction s) (auto simp: Let_def)

subsection \<open>split at the first separator\<close>

lemma dropWhile_neq_Cons:
  "c \<in> set s \<Longrightarrow> dropWhile (\<lambda>x. x \<noteq> c) s = c # tl (dropWhile (\<lambda>x. x \<noteq> c) s)"
  by (induction s) auto

lemma split_once_cases:
  "(c \<notin> set s \<and> split_once c s = [s]) \<or>
   (\<exists>a b. c \<notin> set a \<and> s = a @ c # b \<and> split_once c s = [a, b])"
proof (cases "c \<in> set s")
  case True
  define a where "a = takeWhile (\<lambda>x. x \<noteq> c) s"
  define b where "b = tl (dropWhile (\<lambda>x. x \<noteq> c) s)"
  have "s = a @ c # b"
    using takeWhile_dropWhile_id [of "\<lambda>x. x \<noteq> c" s] dropWhile_neq_Cons [OF True]
    by (simp add: a_def b_def)
  moreover have "c \<notin> set a"
    unfolding a_def by (blast dest: set_takeWhileD)
  moreover have "split_once c s = [a, b]"
    using True by (simp add: split_once_def a_def b_def)
  ultimately show ?thesis by blast
next
  case False
  then show ?thesis by (simp add: split_once_def)
qed

lemma split_once_join: "py_join [c] (split_once c s) = s"
  using split_once_cases [of c s] by auto

subsection \<open>strip and lower\<close>

lemma dropWhile_Nil_all: "(\<forall>c \<in> set (dropWhile P s). P c) \<longleftrightarrow> (\<forall>c \<in> set s. P c)"
  by (induction s) auto

lemma py_strip_Nil_iff: "py_strip s = [] \<longleftrightarrow> (\<forall>c \<in> set s. py_isspace c)"
  by (simp add: py_strip_def dropWhile_eq_Nil_conv dropWhile_Nil_all)

lemma set_py_strip: "set (py_strip s) \<subseteq> set s"
proof
  fix c assume "c \<in> set (py_strip s)"
  then show "c \<in> set s"
    unfolding py_strip_def by (metis set_dropWhileD set_rev)
qed

lemma in_dropWhile_nonspace: "\<not> P c \<Longrightarrow> c \<in> set (dropWhile P s) \<longleftrightarrow> c \<in> set s"
  by (induction s) auto

lemma in_py_strip_nonspace:
  "\<not> py_isspace c \<Longrightarrow> c \<in> set (py_strip s) \<longleftrightarrow> c \<in> set s"
  by (simp add: py_strip_def in_dropWhile_nonspace)

lemma length_py_lower [simp]: "length (py_lower s) = length s"
  by (simp add: py_lower_def)

lemma py_lower_Nil_iff [simp]: "py_lower s = [] \<longleftrightarrow> s = []"
  by (simp add: py_lower_def)

lemma hd_py_lower: "s \<noteq> [] \<Longrightarrow> hd (py_lower s) = py_lower_char (hd s)"
  by (cases s) (simp_all add: py_lower_def)

lemma take_py_lower: "take n (py_lower s) = py_lower (take n s)"
  by (simp add: py_lower_def take_map)

subsection \<open>split on whitespace\<close>

lemma split_ws_acc_words:
  "w' \<in> set (split_ws_acc w s) \<Longrightarrow> (\<forall>c \<in> set w. \<not> py_isspace c) \<Longrightarrow>
   w' \<noteq> [] \<and> (\<forall>c \<in> set w'. \<not> py_isspace c)"
proof (induction w s rule: split_ws_acc.induct)
  case (1 w)
  then show ?case by (simp split: if_splits)
next
  case (2 w c cs)
  show ?case
  proof (cases "py_isspace c")
    case sp: True
    show ?thesis
    proof (cases "w = []")
      case True
      with sp "2.prems" "2.IH"(1) show ?thesis by simp
    next
      case False
      with sp "2.prems" "2.IH"(2) show ?thesis by auto
    qed
  next
    case False
    with "2.prems" "2.IH"(3) show ?thesis by simp
  qed
qed

lemma split_ws_words:
  "w \<in> set (split_ws s) \<Longrightarrow> w \<noteq> [] \<and> (\<forall>c \<in> set w. \<not> py_isspace c)"
  unfolding split_ws_def using split_ws_acc_words by fastforce

lemma split_ws_acc_concat:
  "concat (split_ws_acc w s) = rev w @ filter (\<lambda>c. \<not> py_isspace c) s"
  by (induction w s rule: split_ws_acc.induct) auto

lemma concat_split_ws: "concat (split_ws s) = filter (\<lambda>c. \<not> py_isspace c) s"
  by (simp add: split_ws_def split_ws_acc_concat)

text \<open>Words joined with single spaces split back into the same words: the
  round trip that the rescaling routines rely on when they re-join values.\<close>

lemma split_ws_acc_word:
  "\<forall>c \<in> set u. \<not> py_isspace c \<Longrightarrow> split_ws_acc w (u @ t) = split_ws_acc (rev u @ w) t"
  by (induction u arbitrary: w) auto

lemma py_isspace_space [simp]: "py_isspace (CHR '' '')"
  by (simp add: py_isspace_def)

lemma split_ws_join:
  assumes "\<forall>w \<in> set ws. w \<noteq> [] \<and> (\<forall>c \<in> set w. \<not> py_isspace c)"
  shows "split_ws (py_join '' '' ws) = ws"
  using assms
proof (induction ws rule: induct_list012)
  case 1
  then show ?case by (simp add: split_ws_def)
next
  case (2 x)
  then show ?case
    by (simp add: split_ws_def split_ws_acc_word [where t = "[]", simplified])
next
  case (3 x y zs)
  have x: "x \<noteq> []" "\<forall>c \<in> set x. \<not> py_isspace c" using "3.prems" by auto
  have "split_ws (py_join '' '' (x # y # zs)) = split_ws_acc (rev x) (CHR '' '' # py_join '' '' (y # zs))"
    using x by (simp add: split_ws_def split_ws_acc_word)
  also have "\<dots> = x # split_ws (py_join '' '' (y # zs))"
    using x by (simp add: split_ws_def)
  also have "\<dots> = x # y # zs" using "3.IH" "3.prems" by simp
  finally show ?case .
qed

text \<open>A whitespace character separates the words on its two sides, so
  \<^verbatim>\<open>split()\<close> of a joined text is the concatenation of the splits.\<close>

lemma split_ws_acc_space:
  "py_isspace c \<Longrightarrow> split_ws_acc w (a @ c # b) = split_ws_acc w a @ split_ws_acc [] b"
  by (induction w a rule: split_ws_acc.induct) auto

lemma split_ws_append_space:
  "py_isspace c \<Longrightarrow> split_ws (a @ c # b) = split_ws a @ split_ws b"
  by (simp add: split_ws_def split_ws_acc_space)

lemma split_ws_Cons_space: "py_isspace c \<Longrightarrow> split_ws (c # b) = split_ws b"
  using split_ws_append_space [of c "[]" b] by (simp add: split_ws_def)

lemma split_ws_snoc_space: "py_isspace c \<Longrightarrow> split_ws (a @ [c]) = split_ws a"
  using split_ws_append_space [of c a "[]"] by (simp add: split_ws_def)

lemma split_ws_py_join_space: "split_ws (py_join '' '' xs) = concat (map split_ws xs)"
  by (induction "'' ''" xs rule: py_join.induct) (simp_all add: split_ws_append_space, simp add: split_ws_def)

lemma split_ws_word:
  "w \<noteq> [] \<Longrightarrow> \<forall>c \<in> set w. \<not> py_isspace c \<Longrightarrow> split_ws w = [w]"
  using split_ws_acc_word [of w "[]" "[]"] by (simp add: split_ws_def)

end
