(* ===== verification/PyFloat.thy ===== *)
theory PyFloat
  imports PyStr
begin

text \<open>
  Python's \<^verbatim>\<open>float\<close> (an IEEE 754 binary64 number) and the four operations
  on it that \<^verbatim>\<open>src/scale_vmec.py\<close> uses: multiplication (\<^verbatim>\<open>*\<close>, also
  numpy's elementwise \<^verbatim>\<open>np.array(vals) * s\<close>), division (\<^verbatim>\<open>/\<close>), squaring
  (\<^verbatim>\<open>x**2\<close>), the constructor \<^verbatim>\<open>float(str)\<close> and the format
  \<^verbatim>\<open>"{: .15e}".format\<close>.

  A finite float is \<open>Num s m\<close>: sign \<open>s\<close> (\<open>True\<close> for negative, so that
  \<open>-0.0\<close> is \<open>Num True 0\<close>) and magnitude \<open>m\<close>, an exact rational that is
  a binary64 value. Every operation computes the exact rational result and
  rounds it with \<open>mk_float\<close>: round to nearest, ties to even, 53
  significant bits, exponent at least -1074 (subnormals), and infinity from
  \<open>2^1024\<close> on. NaN carries no sign: CPython's formatting ignores it.
\<close>

datatype pyfloat = Num bool rat | Infinity bool | NaN

section \<open>Rounding to binary64\<close>

text \<open>The number of base-\<open>b\<close> digits of a positive integer (integers
  rather than naturals keep the kernel's evaluation of large numerals fast),
  and from it \<open>\<lfloor>log_b q\<rfloor>\<close> for a rational \<open>q > 0\<close>: the digit lengths of
  numerator and denominator leave two neighbouring candidates, and one
  comparison decides between them.\<close>

function ilen :: "int \<Rightarrow> int \<Rightarrow> nat" where
  "ilen b n = (if n \<le> 0 \<or> b \<le> 1 then 0 else Suc (ilen b (n div b)))"
  by pat_completeness auto
termination
  by (relation "measure (\<lambda>(b, n). nat n)") (auto intro: int_div_less_self)

declare ilen.simps [simp del]

definition floor_log :: "int \<Rightarrow> rat \<Rightarrow> int" where
  "floor_log b q =
     (let (x, y) = quotient_of q;
          n = int (ilen b x) - int (ilen b y)
      in if of_int b powi n \<le> q then n else n - 1)"

text \<open>Round to the nearest integer, ties to the even one.\<close>

definition round_even :: "rat \<Rightarrow> int" where
  "round_even q =
     (let f = \<lfloor>q\<rfloor>; r = q - of_int f
      in if r < 1/2 then f else if 1/2 < r then f + 1 else if even f then f else f + 1)"

text \<open>The exponent of the last significant bit of a binary64 number of
  magnitude \<open>m\<close>: 52 bits below the leading one, but never below the
  subnormal quantum \<open>2^-1074\<close>.\<close>

definition quantum_exp :: "rat \<Rightarrow> int" where
  "quantum_exp m = max (floor_log 2 m - 52) (-1074)"

definition round_b64 :: "rat \<Rightarrow> rat" where
  "round_b64 m =
     (if m = 0 then 0
      else let k = quantum_exp m in of_int (round_even (m / 2 powi k)) * 2 powi k)"

text \<open>A rounded magnitude overflows when it reaches \<open>2^1024\<close>; the test is
  written with \<open>floor_log\<close>, which the kernel evaluates much faster than
  the 309-digit bound (\<open>b64_overflow_iff\<close> below shows the two agree).\<close>

definition b64_overflow :: "rat \<Rightarrow> bool" where
  "b64_overflow r \<longleftrightarrow> 0 < r \<and> 1024 \<le> floor_log 2 r"

text \<open>Round an exact magnitude with its sign; overflow gives an infinity.\<close>

definition mk_float :: "bool \<Rightarrow> rat \<Rightarrow> pyfloat" where
  "mk_float s m = (let r = round_b64 m in if b64_overflow r then Infinity s else Num s r)"

text \<open>A float is well formed when its magnitude is a non-negative binary64
  value: rounding leaves it unchanged and it is below the overflow bound.\<close>

fun wf_float :: "pyfloat \<Rightarrow> bool" where
  "wf_float (Num s m) \<longleftrightarrow> 0 \<le> m \<and> round_b64 m = m \<and> m < 2 powi 1024"
| "wf_float (Infinity s) \<longleftrightarrow> True"
| "wf_float NaN \<longleftrightarrow> True"

definition is_zero :: "pyfloat \<Rightarrow> bool" where
  "is_zero x \<longleftrightarrow> (case x of Num s m \<Rightarrow> m = 0 | _ \<Rightarrow> False)"

section \<open>Arithmetic\<close>

text \<open>IEEE multiplication (CPython's \<^verbatim>\<open>float_mul\<close>, numpy's \<^verbatim>\<open>multiply\<close>):
  the sign is the exclusive or of the signs, infinity times zero is NaN,
  and overflow gives an infinity without an exception.\<close>

fun fmul :: "pyfloat \<Rightarrow> pyfloat \<Rightarrow> pyfloat" where
  "fmul NaN y = NaN"
| "fmul x NaN = NaN"
| "fmul (Infinity s) (Infinity t) = Infinity (s \<noteq> t)"
| "fmul (Infinity s) (Num t n) = (if n = 0 then NaN else Infinity (s \<noteq> t))"
| "fmul (Num s m) (Infinity t) = (if m = 0 then NaN else Infinity (s \<noteq> t))"
| "fmul (Num s m) (Num t n) = mk_float (s \<noteq> t) (m * n)"

text \<open>IEEE division, total.\<close>

fun fdiv_ieee :: "pyfloat \<Rightarrow> pyfloat \<Rightarrow> pyfloat" where
  "fdiv_ieee NaN y = NaN"
| "fdiv_ieee x NaN = NaN"
| "fdiv_ieee (Infinity s) (Infinity t) = NaN"
| "fdiv_ieee (Infinity s) (Num t n) = Infinity (s \<noteq> t)"
| "fdiv_ieee (Num s m) (Infinity t) = Num (s \<noteq> t) 0"
| "fdiv_ieee (Num s m) (Num t n) =
     (if n = 0 then (if m = 0 then NaN else Infinity (s \<noteq> t)) else mk_float (s \<noteq> t) (m / n))"

text \<open>CPython's \<^verbatim>\<open>float_div\<close> raises ZeroDivisionError when the divisor is
  a zero of either sign, before it looks at the dividend.\<close>

definition fdiv :: "pyfloat \<Rightarrow> pyfloat \<Rightarrow> pyfloat result" where
  "fdiv x y = (if is_zero y then Inl ZeroDivisionError else Inr (fdiv_ieee x y))"

text \<open>CPython's \<^verbatim>\<open>float_pow\<close> with exponent 2: NaN and the infinities are
  handled before \<^verbatim>\<open>pow\<close> is called (\<open>(\<plusminus>inf)**2 = inf\<close>), a zero gives
  \<open>+0.0\<close>, a negative base is replaced by its absolute value (2 is even, so
  the result is not negated), and a finite result that overflows makes
  \<^verbatim>\<open>pow\<close> set \<^verbatim>\<open>ERANGE\<close>, which CPython raises as OverflowError.\<close>

definition fpow2 :: "pyfloat \<Rightarrow> pyfloat result" where
  "fpow2 x =
     (case x of
        NaN \<Rightarrow> Inr NaN
      | Infinity s \<Rightarrow> Inr (Infinity False)
      | Num s m \<Rightarrow>
          (if m = 0 then Inr (Num False 0)
           else let r = round_b64 (m * m)
                in if b64_overflow r then Inl OverflowError else Inr (Num False r)))"

section \<open>The constructor float(str)\<close>

text \<open>
  CPython's \<^verbatim>\<open>PyFloat_FromString\<close>: the string is first mapped to ASCII
  (a non-ASCII whitespace character such as NEL or NBSP becomes a space, any
  other non-ASCII character ends the string with an invalid mark), then
  \<^verbatim>\<open>_Py_string_to_number_with_underscores\<close> removes the underscores, each of
  which must sit between two digits, then \<^verbatim>\<open>float_from_string_inner\<close>
  strips the ASCII whitespace (\<^verbatim>\<open>Py_ISSPACE\<close>: space, tab, LF, VT, FF, CR;
  not the separators 0x1C--0x1F that \<^verbatim>\<open>str.split\<close> treats as whitespace)
  and requires \<^verbatim>\<open>_PyOS_ascii_strtod\<close> to consume all the rest: a decimal
  literal, correctly rounded, or \<^verbatim>\<open>inf\<close>, \<^verbatim>\<open>infinity\<close>, \<^verbatim>\<open>nan\<close> in any case,
  each with an optional sign. Every failure is a ValueError naming the
  string.
\<close>

definition is_digit :: "char \<Rightarrow> bool" where
  "is_digit c \<longleftrightarrow> (let n = (of_char c :: nat) in 48 \<le> n \<and> n \<le> 57)"

definition digit_val :: "char \<Rightarrow> nat" where
  "digit_val c = of_char c - 48"

definition dec_val :: "string \<Rightarrow> int" where
  "dec_val ds = foldl (\<lambda>n c. 10 * n + int (digit_val c)) 0 ds"

definition float_isspace :: "char \<Rightarrow> bool" where
  "float_isspace c \<longleftrightarrow>
     (let n = (of_char c :: nat) in (9 \<le> n \<and> n \<le> 13) \<or> n = 32 \<or> n = 133 \<or> n = 160)"

text \<open>The underscore rule, scanned left to right with the previous character
  (initially NUL, which is no digit).\<close>

fun underscore_scan :: "char \<Rightarrow> string \<Rightarrow> string option" where
  "underscore_scan prev [] = (if prev = CHR ''_'' then None else Some [])"
| "underscore_scan prev (c # cs) =
     (if c = CHR ''_'' then (if is_digit prev then underscore_scan c cs else None)
      else if prev = CHR ''_'' \<and> \<not> is_digit c then None
      else map_option (Cons c) (underscore_scan c cs))"

definition remove_underscores :: "string \<Rightarrow> string option" where
  "remove_underscores s = underscore_scan (CHR 0x00) s"

definition float_strip :: "string \<Rightarrow> string" where
  "float_strip s = rev (dropWhile float_isspace (rev (dropWhile float_isspace s)))"

text \<open>An optional sign.\<close>

definition split_sign :: "string \<Rightarrow> bool \<times> string" where
  "split_sign s =
     (case s of
        c # r \<Rightarrow> if c = CHR ''-'' then (True, r) else if c = CHR ''+'' then (False, r) else (False, s)
      | [] \<Rightarrow> (False, []))"

text \<open>The exponent after \<open>e\<close> or \<open>E\<close>: an optional sign and at least one
  digit, with nothing after them.\<close>

definition parse_exp :: "string \<Rightarrow> int option" where
  "parse_exp s =
     (let (neg, ds) = split_sign s
      in if ds \<noteq> [] \<and> (\<forall>c \<in> set ds. is_digit c)
         then Some (if neg then - dec_val ds else dec_val ds) else None)"

text \<open>An unsigned decimal literal \<open>d1[.d2][e exp]\<close> with at least one digit
  in \<open>d1 d2\<close>, read as the exact rational \<open>d1d2 \<cdot> 10^(exp - |d2|)\<close>.\<close>

definition parse_decimal :: "string \<Rightarrow> rat option" where
  "parse_decimal s =
     (let d1 = takeWhile is_digit s;
          r1 = dropWhile is_digit s;
          (d2, r2) = (case r1 of
                        c # r \<Rightarrow> if c = CHR ''.'' then (takeWhile is_digit r, dropWhile is_digit r)
                                 else ([], r1)
                      | [] \<Rightarrow> ([], []));
          e = (case r2 of
                 [] \<Rightarrow> Some 0
               | c # r \<Rightarrow> if c = CHR ''e'' \<or> c = CHR ''E'' then parse_exp r else None)
      in if d1 @ d2 = [] then None
         else map_option (\<lambda>x. of_int (dec_val (d1 @ d2)) * 10 powi (x - int (length d2))) e)"

definition parse_literal :: "string \<Rightarrow> pyfloat option" where
  "parse_literal t =
     (let (neg, u) = split_sign t
      in case parse_decimal u of
           Some q \<Rightarrow> Some (mk_float neg q)
         | None \<Rightarrow>
             (let v = py_lower u
              in if v = ''inf'' \<or> v = ''infinity'' then Some (Infinity neg)
                 else if v = ''nan'' then Some NaN else None))"

definition py_float :: "string \<Rightarrow> pyfloat result" where
  "py_float s =
     (case remove_underscores s of
        None \<Rightarrow> Inl (ValueError s)
      | Some s' \<Rightarrow>
          (let t = float_strip s'
           in if t = [] then Inl (ValueError s)
              else (case parse_literal t of None \<Rightarrow> Inl (ValueError s) | Some x \<Rightarrow> Inr x)))"

section \<open>The format "{: .15e}"\<close>

text \<open>
  \<^verbatim>\<open>format(x, " .15e")\<close>: a space for a non-negative number (the \<^verbatim>\<open>' '\<close>
  flag) or a minus sign, one digit, a point, 15 digits, \<^verbatim>\<open>e\<close>, the sign of
  the exponent and at least two exponent digits. CPython takes the 16
  significant digits from \<^verbatim>\<open>_Py_dg_dtoa\<close> in mode 2, which rounds the exact
  binary value to nearest with ties to even. NaN prints as \<^verbatim>\<open>nan\<close> whatever
  its sign bit, the infinities as \<^verbatim>\<open>inf\<close>.
\<close>

function dec_string :: "int \<Rightarrow> string" where
  "dec_string n =
     (if n < 10 then [char_of (48 + n)] else dec_string (n div 10) @ [char_of (48 + n mod 10)])"
  by pat_completeness auto
termination
  by (relation "measure nat") auto

declare dec_string.simps [simp del]

definition exp_string :: "int \<Rightarrow> string" where
  "exp_string e =
     (if e < 0 then CHR ''-'' else CHR ''+'') #
       (let ds = dec_string \<bar>e\<bar> in if length ds < 2 then CHR ''0'' # ds else ds)"

text \<open>The 16 significant digits of \<open>m > 0\<close> as a number \<open>D\<close> and the decimal
  exponent \<open>d\<close> with \<open>m \<approx> D \<cdot> 10^(d - 15)\<close>; rounding up to \<open>10^16\<close>
  moves to the next decade.\<close>

definition sci_digits :: "rat \<Rightarrow> int \<times> int" where
  "sci_digits m =
     (let d = floor_log 10 m; D = round_even (m / 10 powi (d - 15))
      in if D = 10 ^ 16 then (10 ^ 15, d + 1) else (D, d))"

definition fmt_e15 :: "pyfloat \<Rightarrow> string" where
  "fmt_e15 x =
     (case x of
        NaN \<Rightarrow> '' nan''
      | Infinity s \<Rightarrow> (if s then ''-inf'' else '' inf'')
      | Num s m \<Rightarrow>
          (if s then CHR ''-'' else CHR '' '') #
          (if m = 0 then ''0.000000000000000e+00''
           else let (D, d) = sci_digits m; ds = dec_string D
                in hd ds # CHR ''.'' # tl ds @ CHR ''e'' # exp_string d))"

section \<open>Lemmas: logarithms, overflow and rounding\<close>

lemma ilen_pos: "1 < b \<Longrightarrow> 0 < n \<Longrightarrow> 0 < ilen b n"
  by (subst ilen.simps) simp

lemma ilen_bounds:
  "1 < b \<Longrightarrow> 0 < n \<Longrightarrow> b ^ (ilen b n - 1) \<le> n \<and> n < b ^ ilen b n"
proof (induction b n rule: ilen.induct)
  case (1 b n)
  have nc: "\<not> (n \<le> 0 \<or> b \<le> 1)" using "1.prems" by simp
  have unf: "ilen b n = Suc (ilen b (n div b))"
    using nc by (subst ilen.simps) simp
  have dm: "b * (n div b) + n mod b = n" by (rule mult_div_mod_eq)
  have mb: "n mod b < b" "0 \<le> n mod b" using "1.prems" by simp_all
  show ?case
  proof (cases "n div b \<le> 0")
    case True
    have "0 \<le> n div b" using "1.prems" pos_imp_zdiv_nonneg_iff [of b n] by simp
    then have z: "n div b = 0" using True by linarith
    then have "ilen b (n div b) = 0" by (subst ilen.simps) simp
    moreover have "n < b" using z dm mb by simp
    ultimately show ?thesis using unf "1.prems" by simp
  next
    case False
    then have pos: "0 < n div b" by simp
    note IH = "1.IH" [OF nc "1.prems"(1) pos]
    have k: "0 < ilen b (n div b)" using ilen_pos "1.prems"(1) pos by blast
    have "b ^ ilen b (n div b) = b * b ^ (ilen b (n div b) - 1)"
      using k by (simp add: power_eq_if)
    also have "\<dots> \<le> b * (n div b)" using IH "1.prems" by simp
    also have "\<dots> \<le> n" using dm mb by linarith
    finally have lo: "b ^ ilen b (n div b) \<le> n" .
    have "n < b * (n div b) + b" using dm mb(1) by linarith
    then have "n < b * (n div b + 1)" by (simp add: distrib_left)
    also have "\<dots> \<le> b * b ^ ilen b (n div b)"
      using IH "1.prems" by (intro mult_left_mono) simp_all
    finally have hi: "n < b ^ Suc (ilen b (n div b))" by simp
    show ?thesis using lo hi unf by simp
  qed
qed

lemma powi_diff_mult: "(B::rat) \<noteq> 0 \<Longrightarrow> B powi (int a - int c) * B ^ c = B ^ a"
proof -
  assume "B \<noteq> 0"
  then have "B powi (int a - int c + int c) = B powi (int a - int c) * B powi (int c)"
    by (rule power_int_add [OF disjI1])
  then show ?thesis by simp
qed

lemma floor_log_bounds:
  assumes b: "1 < b" and q: "0 < q"
  shows "of_int b powi floor_log b q \<le> q \<and> q < of_int b powi (floor_log b q + 1)"
proof -
  obtain x y where xy: "quotient_of q = (x, y)" by (cases "quotient_of q")
  have y: "0 < y" using quotient_of_denom_pos [OF xy] .
  have qxy: "q = of_int x / of_int y" using quotient_of_div [OF xy] .
  have x: "0 < x" using q y qxy by (simp add: zero_less_divide_iff)
  define la where "la = ilen b x"
  define lb where "lb = ilen b y"
  define n where "n = int la - int lb"
  define B where "B = (of_int b :: rat)"
  have B: "1 < B" using b by (simp add: B_def)
  have Bp: "0 < B powi k" for k using B by simp
  have xa: "B ^ (la - 1) \<le> of_int x" "of_int x < B ^ la"
    using ilen_bounds [OF b x] unfolding B_def la_def
    by (simp_all only: of_int_power [symmetric] of_int_le_iff of_int_less_iff)
  have yb: "B ^ (lb - 1) \<le> of_int y" "of_int y < B ^ lb"
    using ilen_bounds [OF b y] unfolding B_def lb_def
    by (simp_all only: of_int_power [symmetric] of_int_le_iff of_int_less_iff)
  have la1: "1 \<le> la" using ilen_pos [OF b x] by (simp add: la_def)
  have lb1: "1 \<le> lb" using ilen_pos [OF b y] by (simp add: lb_def)
  have upper: "q < B powi (n + 1)"
  proof -
    have "n + 1 = int la - int (lb - 1)" using lb1 by (simp add: n_def)
    then have e: "B powi (n + 1) * B ^ (lb - 1) = B ^ la"
      using powi_diff_mult [of B la "lb - 1"] B by simp
    have "of_int x < B powi (n + 1) * B ^ (lb - 1)" using xa(2) e by simp
    also have "\<dots> \<le> B powi (n + 1) * of_int y"
      using yb(1) Bp [of "n + 1"] by (intro mult_left_mono) simp_all
    finally show ?thesis using qxy y by (simp add: divide_less_eq)
  qed
  have lower: "B powi (n - 1) < q"
  proof -
    have "n - 1 = int (la - 1) - int lb" using la1 by (simp add: n_def)
    then have e: "B powi (n - 1) * B ^ lb = B ^ (la - 1)"
      using powi_diff_mult [of B "la - 1" lb] B by simp
    have "B powi (n - 1) * of_int y < B powi (n - 1) * B ^ lb"
      using yb(2) Bp by simp
    also have "\<dots> \<le> of_int x" using xa(1) e by simp
    finally show ?thesis using qxy y by (simp add: less_divide_eq)
  qed
  have fl: "floor_log b q = (if B powi n \<le> q then n else n - 1)"
    by (simp add: floor_log_def xy B_def n_def la_def lb_def)
  show ?thesis
  proof (cases "B powi n \<le> q")
    case True
    then show ?thesis using fl upper by (simp add: B_def)
  next
    case False
    then show ?thesis using fl lower by (simp add: B_def)
  qed
qed

lemma floor_log2_bounds:
  "0 < q \<Longrightarrow> 2 powi floor_log 2 q \<le> q \<and> q < 2 powi (floor_log 2 q + 1)"
  using floor_log_bounds [of 2 q] by simp

lemma b64_overflow_iff: "0 \<le> r \<Longrightarrow> b64_overflow r \<longleftrightarrow> 2 powi 1024 \<le> r"
proof
  assume r: "0 \<le> r" and ov: "b64_overflow r"
  then have "0 < r" "1024 \<le> floor_log 2 r" by (simp_all add: b64_overflow_def)
  then have "(2::rat) powi 1024 \<le> 2 powi floor_log 2 r"
    by (intro power_int_increasing) simp_all
  also have "\<dots> \<le> r" using floor_log2_bounds \<open>0 < r\<close> by blast
  finally show "2 powi 1024 \<le> r" .
next
  assume r: "0 \<le> r" and big: "2 powi 1024 \<le> r"
  then have pos: "0 < r" by (metis less_le_trans zero_less_power_int zero_less_numeral)
  have "\<not> floor_log 2 r < 1024"
  proof
    assume "floor_log 2 r < 1024"
    then have "(2::rat) powi (floor_log 2 r + 1) \<le> 2 powi 1024"
      by (intro power_int_increasing) simp_all
    with floor_log2_bounds [OF pos] big show False by simp
  qed
  with pos show "b64_overflow r" by (simp add: b64_overflow_def)
qed

lemma round_even_bound: "\<bar>of_int (round_even q) - q\<bar> \<le> 1/2"
proof -
  define f where "f = \<lfloor>q\<rfloor>"
  have f: "of_int f \<le> q" "q < of_int f + 1" unfolding f_def by linarith+
  show ?thesis
    unfolding round_even_def Let_def f_def [symmetric]
    using f by (simp split: if_splits)
qed

lemma round_even_nonneg: "0 \<le> q \<Longrightarrow> 0 \<le> round_even q"
  unfolding round_even_def Let_def by simp

lemma round_b64_nonneg: "0 \<le> m \<Longrightarrow> 0 \<le> round_b64 m"
  unfolding round_b64_def Let_def
  by (simp add: round_even_nonneg zero_le_mult_iff)

text \<open>The rounding error is at most half a quantum of the result's binade.\<close>

lemma round_b64_error:
  "\<bar>round_b64 m - m\<bar> \<le> 2 powi quantum_exp m / 2"
proof (cases "m = 0")
  case True
  then show ?thesis by (simp add: round_b64_def)
next
  case False
  define p where "p = (2::rat) powi quantum_exp m"
  have p: "0 < p" by (simp add: p_def)
  have "round_b64 m - m = (of_int (round_even (m / p)) - m / p) * p"
    using False p by (simp add: round_b64_def p_def Let_def algebra_simps)
  then have "\<bar>round_b64 m - m\<bar> = \<bar>of_int (round_even (m / p)) - m / p\<bar> * p"
    using p by (simp add: abs_mult)
  also have "\<dots> \<le> 1/2 * p"
    using round_even_bound p by (intro mult_right_mono) simp_all
  finally show ?thesis by (simp add: p_def)
qed

end
