(* ===== verification/Binary64.thy ===== *)
theory Binary64
  imports PyFloat
begin

text \<open>
  Properties of the binary64 model of \<open>PyFloat\<close>. A magnitude \<open>N \<cdot> 2^j\<close>
  with \<open>0 \<le> N < 2^53\<close> and \<open>j \<ge> -1074\<close> is a binary64 value, rounding leaves
  it alone (\<open>round_b64_repr\<close>), and every rounded magnitude has that form
  (\<open>round_b64_repr_result\<close>), so rounding is idempotent and \<open>mk_float\<close>
  builds well-formed floats. Hence the operations the program uses (\<open>fmul\<close>,
  \<open>fdiv\<close>, \<open>fpow2\<close>, \<open>py_float\<close>) only produce well-formed floats,
  multiplying by \<open>1.0\<close> is the identity on them, and a product is within
  the unit roundoff \<open>2^-53\<close> of the exact one.
\<close>

lemma floor_log2_less: "0 < r \<Longrightarrow> r < 2 powi e \<Longrightarrow> floor_log 2 r < e"
proof (rule ccontr)
  assume r: "0 < r" "r < 2 powi e" and "\<not> floor_log 2 r < e"
  then have "(2::rat) powi e \<le> 2 powi floor_log 2 r" by (intro power_int_increasing) simp_all
  also have "\<dots> \<le> r" using floor_log2_bounds [OF r(1)] by blast
  finally show False using r(2) by simp
qed

lemma floor_log2_ge: "0 < r \<Longrightarrow> 2 powi e \<le> r \<Longrightarrow> e \<le> floor_log 2 r"
proof (rule ccontr)
  assume r: "0 < r" "2 powi e \<le> r" and "\<not> e \<le> floor_log 2 r"
  then have "(2::rat) powi (floor_log 2 r + 1) \<le> 2 powi e" by (intro power_int_increasing) simp_all
  with floor_log2_bounds [OF r(1)] r(2) show False by simp
qed

lemma round_even_of_int [simp]: "round_even (of_int n) = n"
  by (simp add: round_even_def)

lemma powi_two_mult: "(2::rat) powi a * 2 powi b = 2 powi (a + b)"
  by (simp add: power_int_add)

text \<open>A binary64 magnitude \<open>N \<cdot> 2^j\<close> with a 53-bit significand and an exponent
  no lower than the subnormal one is left alone by rounding.\<close>

lemma round_b64_repr:
  assumes N: "0 \<le> N" "N < 2 ^ 53" and j: "-1074 \<le> j"
  shows "round_b64 (of_int N * 2 powi j) = of_int N * 2 powi j"
proof (cases "N = 0")
  case True
  then show ?thesis by (simp add: round_b64_def)
next
  case False
  define r where "r = (of_int N :: rat) * 2 powi j"
  have r0: "0 < r" using N False by (simp add: r_def)
  have "r < 2 powi (53 + j)"
  proof -
    have "(of_int N :: rat) < 2 powi 53" using N(2) by (simp flip: of_int_less_iff)
    then have "r < 2 powi 53 * 2 powi j" unfolding r_def by (intro mult_strict_right_mono) simp_all
    also have "(2::rat) powi 53 * 2 powi j = 2 powi (53 + j)" by (rule powi_two_mult)
    finally show ?thesis .
  qed
  then have fl: "floor_log 2 r < 53 + j" using floor_log2_less r0 by blast
  define k where "k = quantum_exp r"
  have kj: "k \<le> j" using fl j by (simp add: k_def quantum_exp_def)
  have e1: "(2::rat) powi (j - k) = 2 ^ nat (j - k)" using kj by (simp add: power_int_def)
  have e2: "(2::rat) powi j = 2 powi (j - k) * 2 powi k" by (simp add: powi_two_mult)
  have q: "r / 2 powi k = of_int (N * 2 ^ nat (j - k))"
    using e1 e2 by (simp add: r_def)
  have "round_b64 r = of_int (round_even (r / 2 powi k)) * 2 powi k"
    using r0 by (simp add: round_b64_def k_def Let_def)
  also have "\<dots> = of_int (N * 2 ^ nat (j - k)) * 2 powi k"
    by (simp only: q round_even_of_int)
  also have "\<dots> = r"
  proof -
    have "(2::rat) ^ nat (j - k) * 2 powi k = 2 powi j"
      using e1 e2 by simp
    then show ?thesis by (simp add: r_def mult.assoc)
  qed
  finally show ?thesis by (simp add: r_def)
qed

text \<open>Every rounded magnitude has that form: the significand is at most
  \<open>2^53\<close>, and when rounding carries it to \<open>2^53\<close> the value is \<open>2^52\<close> units
  of the next exponent.\<close>

lemma round_b64_repr_result:
  assumes m: "0 \<le> m"
  shows "\<exists>N j. 0 \<le> N \<and> N < 2 ^ 53 \<and> -1074 \<le> j \<and> round_b64 m = of_int N * 2 powi j"
proof (cases "m = 0")
  case True
  then show ?thesis by (intro exI [of _ 0] exI [of _ 0]) (simp add: round_b64_def)
next
  case False
  then have m0: "0 < m" using m by simp
  define k where "k = quantum_exp m"
  define N where "N = round_even (m / 2 powi k)"
  have k: "-1074 \<le> k" "floor_log 2 m - 52 \<le> k" by (simp_all add: k_def quantum_exp_def)
  have r: "round_b64 m = of_int N * 2 powi k"
    using False by (simp add: round_b64_def k_def N_def Let_def)
  have N0: "0 \<le> N" unfolding N_def using m by (intro round_even_nonneg) simp
  have "m / 2 powi k < 2 powi 53"
  proof -
    have "m < 2 powi (floor_log 2 m + 1)" using floor_log2_bounds [OF m0] by blast
    also have "(2::rat) powi (floor_log 2 m + 1) \<le> 2 powi (53 + k)"
      using k(2) by (intro power_int_increasing) simp_all
    also have "(2::rat) powi (53 + k) = 2 powi 53 * 2 powi k" by (rule powi_two_mult [symmetric])
    finally show ?thesis by (simp add: divide_less_eq)
  qed
  moreover have "of_int N \<le> m / 2 powi k + 1/2"
    using round_even_bound [of "m / 2 powi k"] unfolding N_def by linarith
  moreover have "(2::rat) powi 53 = of_int (2 ^ 53)" by simp
  ultimately have "of_int N < (of_int (2 ^ 53 + 1) :: rat)" by linarith
  then have "N < 2 ^ 53 + 1" by (simp only: of_int_less_iff)
  then have N53: "N \<le> 2 ^ 53" by simp
  show ?thesis
  proof (cases "N = 2 ^ 53")
    case True
    have "round_b64 m = of_int (2 ^ 52) * 2 powi (k + 1)"
      using r True by (simp add: power_int_add)
    moreover have "(0::int) \<le> 2 ^ 52" "(2::int) ^ 52 < 2 ^ 53" "-1074 \<le> k + 1"
      using k(1) by simp_all
    ultimately show ?thesis by blast
  next
    case False
    then show ?thesis using r k(1) N0 N53 by (intro exI [of _ N] exI [of _ k]) simp
  qed
qed

lemma round_b64_idem: "0 \<le> m \<Longrightarrow> round_b64 (round_b64 m) = round_b64 m"
  using round_b64_repr_result round_b64_repr by metis

lemma wf_mk_float: "0 \<le> m \<Longrightarrow> wf_float (mk_float s m)"
  using round_b64_nonneg [of m] round_b64_idem [of m] b64_overflow_iff [of "round_b64 m"]
  by (auto simp: mk_float_def Let_def)

lemma round_b64_zero [simp]: "round_b64 0 = 0"
  by (simp add: round_b64_def)

lemma wf_float_int: "0 \<le> N \<Longrightarrow> N < 2 ^ 53 \<Longrightarrow> wf_float (Num s (of_int N))"
proof -
  assume N: "0 \<le> N" "N < 2 ^ 53"
  have "round_b64 (of_int N) = of_int N" using round_b64_repr [OF N, of 0] by simp
  moreover have "(of_int N :: rat) < 2 ^ 53" using N(2) by (simp flip: of_int_less_iff)
  ultimately show ?thesis using N(1) by simp
qed

lemma round_b64_one [simp]: "round_b64 1 = 1"
  using round_b64_repr [of 1 0] by simp

lemma wf_float_Num_not_overflow: "wf_float (Num s m) \<Longrightarrow> \<not> b64_overflow m"
  by (simp add: b64_overflow_iff)

lemma mk_float_wf_Num: "wf_float (Num s m) \<Longrightarrow> mk_float s m = Num s m"
  using wf_float_Num_not_overflow [of s m] by (simp add: mk_float_def)

lemma fmul_wf: "wf_float x \<Longrightarrow> wf_float y \<Longrightarrow> wf_float (fmul x y)"
  by (induction x y rule: fmul.induct) (simp_all add: wf_mk_float)

lemma fdiv_ieee_wf: "wf_float x \<Longrightarrow> wf_float y \<Longrightarrow> wf_float (fdiv_ieee x y)"
  by (induction x y rule: fdiv_ieee.induct) (simp_all add: wf_mk_float)

lemma fdiv_wf: "wf_float x \<Longrightarrow> wf_float y \<Longrightarrow> fdiv x y = Inr z \<Longrightarrow> wf_float z"
  by (auto simp: fdiv_def fdiv_ieee_wf split: if_splits)

lemma fpow2_wf: "fpow2 x = Inr z \<Longrightarrow> wf_float z"
proof (cases x)
  case (Num s m)
  have "0 \<le> m * m" by simp
  then show "fpow2 x = Inr z \<Longrightarrow> wf_float z"
    using Num round_b64_nonneg [of "m * m"] round_b64_idem [of "m * m"]
      b64_overflow_iff [of "round_b64 (m * m)"]
    by (auto simp: fpow2_def Let_def split: if_splits)
qed (auto simp: fpow2_def)

lemma fmul_one: "wf_float x \<Longrightarrow> fmul x (Num False 1) = x"
  by (cases x) (simp_all add: mk_float_wf_Num)

lemma dec_val_nonneg: "0 \<le> dec_val ds"
proof -
  have "0 \<le> a \<Longrightarrow> 0 \<le> foldl (\<lambda>n c. 10 * n + int (digit_val c)) a ds" for a
    by (induction ds arbitrary: a) simp_all
  then show ?thesis by (simp add: dec_val_def)
qed

lemma parse_decimal_nonneg: "parse_decimal u = Some q \<Longrightarrow> 0 \<le> q"
  by (auto simp: parse_decimal_def Let_def dec_val_nonneg split: prod.splits list.splits if_splits)

lemma parse_literal_wf: "parse_literal t = Some x \<Longrightarrow> wf_float x"
  by (auto simp: parse_literal_def Let_def wf_mk_float dest: parse_decimal_nonneg
           split: prod.splits option.splits if_splits)

lemma py_float_wf: "py_float s = Inr x \<Longrightarrow> wf_float x"
  by (auto simp: py_float_def Let_def dest: parse_literal_wf split: option.splits if_splits)

text \<open>The rounding error relative to the magnitude: at most \<open>2^-53\<close> (half
  a unit in the last of 53 places) for a normal result, and at most half the
  smallest subnormal, \<open>2^-1075\<close>, below the normal range.\<close>

lemma round_b64_rel_error:
  assumes m: "0 \<le> m"
  shows "\<bar>round_b64 m - m\<bar> \<le> max (m * 2 powi -53) (2 powi -1075)"
proof (cases "m = 0")
  case True
  then show ?thesis by simp
next
  case False
  then have m0: "0 < m" using m by simp
  have err: "\<bar>round_b64 m - m\<bar> \<le> 2 powi quantum_exp m / 2" by (rule round_b64_error)
  show ?thesis
  proof (cases "-1074 \<le> floor_log 2 m - 52")
    case True
    then have "quantum_exp m = floor_log 2 m - 52" by (simp add: quantum_exp_def)
    then have "(2::rat) powi quantum_exp m / 2 = 2 powi floor_log 2 m * 2 powi -53"
      by (simp add: power_int_add power_int_diff)
    also have "\<dots> \<le> m * 2 powi -53"
      using floor_log2_bounds [OF m0] by (intro mult_right_mono) simp_all
    finally have "(2::rat) powi quantum_exp m / 2 \<le> m * 2 powi -53" .
    with err show ?thesis by (meson max.coboundedI1 order_trans)
  next
    case False
    then have "quantum_exp m = -1074" by (simp add: quantum_exp_def)
    then have "(2::rat) powi quantum_exp m / 2 = 2 powi -1075" by simp
    with err show ?thesis by (metis max.coboundedI2)
  qed
qed

text \<open>In the normal range the absolute part of the bound disappears.\<close>

lemma fmul_close_normal:
  assumes m: "0 \<le> m" and n: "0 \<le> n" and mn: "2 powi -1022 \<le> m * n"
    and f: "fmul (Num s m) (Num t n) = Num u r"
  shows "\<bar>r - m * n\<bar> \<le> m * n * 2 powi -53"
proof -
  have "mk_float (s \<noteq> t) (m * n) = Num u r" using f by simp
  then have r: "r = round_b64 (m * n)" by (auto simp: mk_float_def Let_def split: if_splits)
  have "(2::rat) powi -1075 = 2 powi -1022 * 2 powi -53" by (simp add: powi_two_mult)
  also have "\<dots> \<le> m * n * 2 powi -53" using mn by (intro mult_right_mono) simp_all
  finally have "max (m * n * 2 powi -53) (2 powi -1075) = m * n * 2 powi -53" by simp
  then show ?thesis using round_b64_rel_error [of "m * n"] m n r by simp
qed

end
