(* ===== verification/Rescale.thy ===== *)
theory Rescale
  imports Binary64
begin

text \<open>
  The three rescaling routines nested in \<^verbatim>\<open>my_patch\<close>
  (\<^verbatim>\<open>src/scale_vmec.py\<close>, lines 14--69). Each takes the text of one line
  \<open>l\<close> (without its comment) and a scale factor, parses the numbers of the
  line with \<^verbatim>\<open>float\<close>, multiplies them by the factor (numpy's elementwise
  product), re-renders them with \<^verbatim>\<open>"{: .15e}".format\<close> and appends a newline
  when \<open>l\<close> ends with one. An exception of the source (\<^verbatim>\<open>float\<close> on a
  malformed token, an index out of range) is an \<open>Inl\<close> result.
\<close>

section \<open>Pieces shared by the routines\<close>

text \<open>One value token: \<^verbatim>\<open>if val[-1] == ",": val = val[:-1]\<close>, then
  \<^verbatim>\<open>float(val)\<close> (lines 18--20, 40--42 and 58--60).\<close>

definition parse_token :: "string \<Rightarrow> pyfloat result" where
  "parse_token val =
     rbind (py_last val) (\<lambda>c. py_float (if c = CHR '','' then butlast val else val))"

text \<open>The loop \<^verbatim>\<open>for val in vals: ... new_vals.append(float(val))\<close>.\<close>

definition parse_values :: "string list \<Rightarrow> pyfloat list result" where
  "parse_values vals = mapR parse_token vals"

text \<open>\<^verbatim>\<open>np.array(new_vals) * scalefactor\<close>.\<close>

definition scale_values :: "pyfloat list \<Rightarrow> pyfloat \<Rightarrow> pyfloat list" where
  "scale_values vs s = map (\<lambda>v. fmul v s) vs"

text \<open>\<^verbatim>\<open>' '.join([formatter(val) for val in new_vals])\<close>.\<close>

definition format_values :: "pyfloat list \<Rightarrow> string" where
  "format_values vs = py_join '' '' (map fmt_e15 vs)"

text \<open>\<^verbatim>\<open>if l[-1] == '\n': new_line = new_line + '\n'\<close>.\<close>

definition keep_newline :: "string \<Rightarrow> string \<Rightarrow> string result" where
  "keep_newline l nl =
     rbind (py_last l) (\<lambda>c. Inr (if c = CHR ''\<newline>'' then nl @ ''\<newline>'' else nl))"

section \<open>The three routines\<close>

text \<open>\<^verbatim>\<open>rescale_followup\<close> (lines 14--29): a continuation line is nothing but
  values.\<close>

definition rescale_followup :: "string \<Rightarrow> pyfloat \<Rightarrow> string result" where
  "rescale_followup l s =
     rbind (parse_values (split_ws l))
       (\<lambda>vs. keep_newline l (format_values (scale_values vs s)))"

text \<open>\<^verbatim>\<open>rescale_multiarrayline\<close> (lines 32--50): \<^verbatim>\<open>key0 = v1 key1 = v2 ...\<close>.
  The pieces between two \<^verbatim>\<open>=\<close> each hold a value and the next key
  (\<^verbatim>\<open>sl[i].split(None, 1)\<close>); the value is parsed before the key is read,
  so a malformed value is reported before a missing key.\<close>

fun multi_middle :: "string list \<Rightarrow> (string list \<times> pyfloat list) result" where
  "multi_middle [] = Inr ([], [])"
| "multi_middle (seg # segs) =
     (let ssl = split_ws1 seg
      in rbind (py_nth ssl 0) (\<lambda>val.
           rbind (parse_token val) (\<lambda>v.
             rbind (py_nth ssl 1) (\<lambda>key.
               rbind (multi_middle segs) (\<lambda>(ks, vs). Inr (key # ks, v # vs))))))"

definition rescale_multiarrayline :: "string \<Rightarrow> pyfloat \<Rightarrow> string result" where
  "rescale_multiarrayline l s =
     (let sl = split_sep (CHR ''='') l
      in rbind (multi_middle (butlast (tl sl))) (\<lambda>(ks, vs).
           rbind (py_float (last sl)) (\<lambda>v.
             (let keys = hd sl # ks; values = scale_values (vs @ [v]) s
              in keep_newline l
                   (py_join '',      '' (map (\<lambda>(k, x). k @ '' = '' @ fmt_e15 x) (zip keys values)))))))"

text \<open>\<^verbatim>\<open>rescale_arrayline\<close> (lines 52--69): \<^verbatim>\<open>key = v1 v2 ...\<close>; only the text
  between the first and the second \<^verbatim>\<open>=\<close> is read (lines 53--60: \<^verbatim>\<open>sl[1]\<close>,
  split and parsed token by token).\<close>

definition arrayline_values :: "string \<Rightarrow> pyfloat list result" where
  "arrayline_values l = rbind (py_nth (split_sep (CHR ''='') l) 1) (\<lambda>v. parse_values (split_ws v))"

definition rescale_arrayline :: "string \<Rightarrow> pyfloat \<Rightarrow> string result" where
  "rescale_arrayline l s =
     (let key = hd (split_sep (CHR ''='') l)
      in rbind (arrayline_values l) (\<lambda>vs.
           keep_newline l (key @ '' = '' @ format_values (scale_values vs s))))"

section \<open>Lemmas\<close>

lemma parse_token_wf: "parse_token val = Inr v \<Longrightarrow> wf_float v"
  by (auto simp: parse_token_def rbind_eq_Inr dest: py_float_wf)

lemma parse_values_wf: "parse_values vals = Inr vs \<Longrightarrow> v \<in> set vs \<Longrightarrow> wf_float v"
  by (auto simp: parse_values_def mapR_Inr_iff in_set_conv_nth dest: parse_token_wf)

lemma scale_values_one: "(\<And>v. v \<in> set vs \<Longrightarrow> wf_float v) \<Longrightarrow> scale_values vs (Num False 1) = vs"
  by (simp add: scale_values_def fmul_one map_idI)

section \<open>Properties\<close>

text \<open>\<^verbatim>\<open>float\<close> rejects any text with a comma: no stage of the parser
  removes one, and the literal grammar has none.\<close>

lemma underscore_scan_keeps:
  "underscore_scan p s = Some s' \<Longrightarrow> c \<in> set s \<Longrightarrow> c \<noteq> CHR ''_'' \<Longrightarrow> c \<in> set s'"
  by (induction p s arbitrary: s' rule: underscore_scan.induct) (auto split: if_splits)

lemma float_strip_keeps: "\<not> float_isspace c \<Longrightarrow> c \<in> set s \<Longrightarrow> c \<in> set (float_strip s)"
  unfolding float_strip_def by (simp add: in_dropWhile_nonspace)

lemma split_sign_comma: "CHR '','' \<in> set t \<Longrightarrow> split_sign t = (neg, u) \<Longrightarrow> CHR '','' \<in> set u"
  by (auto simp: split_sign_def split: list.splits if_splits)

lemma parse_exp_comma: "CHR '','' \<in> set r \<Longrightarrow> parse_exp r = None"
proof -
  assume c: "CHR '','' \<in> set r"
  obtain neg ds where sd: "split_sign r = (neg, ds)" by (cases "split_sign r")
  have "CHR '','' \<in> set ds" using split_sign_comma [OF c sd] .
  moreover have "\<not> is_digit (CHR '','')" by (simp add: is_digit_def)
  ultimately have "\<not> (\<forall>c \<in> set ds. is_digit c)" by blast
  then show ?thesis using sd by (simp add: parse_exp_def)
qed

lemma parse_decimal_comma: "CHR '','' \<in> set u \<Longrightarrow> parse_decimal u = None"
proof -
  assume c: "CHR '','' \<in> set u"
  have nd: "\<not> is_digit (CHR '','')" by (simp add: is_digit_def)
  define r1 where "r1 = dropWhile is_digit u"
  have "CHR '','' \<in> set r1" using c nd by (simp add: r1_def in_dropWhile_nonspace)
  then obtain x r where r1: "r1 = x # r" by (cases r1) auto
  define r2 where "r2 = (if x = CHR ''.'' then dropWhile is_digit r else r1)"
  have "CHR '','' \<in> set r2"
    using \<open>CHR '','' \<in> set r1\<close> nd r1 by (auto simp: r2_def in_dropWhile_nonspace)
  then obtain y r' where r2: "r2 = y # r'" by (cases r2) auto
  have "y = CHR '','' \<or> CHR '','' \<in> set r'" using \<open>CHR '','' \<in> set r2\<close> r2 by auto
  then have "(if y = CHR ''e'' \<or> y = CHR ''E'' then parse_exp r' else None) = None"
    using parse_exp_comma by auto
  then show ?thesis using r1 r2
    by (auto simp: parse_decimal_def Let_def r1_def [symmetric] r2_def split: if_splits)
qed

lemma py_float_comma: "CHR '','' \<in> set s \<Longrightarrow> py_float s = Inl (ValueError s)"
proof -
  assume c: "CHR '','' \<in> set s"
  have ns: "\<not> float_isspace (CHR '','')" by (simp add: float_isspace_def)
  have lit: "parse_literal t = None" if "CHR '','' \<in> set t" for t
  proof -
    obtain neg u where su: "split_sign t = (neg, u)" by (cases "split_sign t")
    have "CHR '','' \<in> set u" using split_sign_comma [OF that su] .
    moreover have "py_lower_char (CHR '','') = CHR '',''" by (simp add: py_lower_char_def)
    ultimately have "CHR '','' \<in> set (py_lower u)" by (force simp: py_lower_def)
    then have "py_lower u \<noteq> ''inf'' \<and> py_lower u \<noteq> ''infinity'' \<and> py_lower u \<noteq> ''nan''" by auto
    then show ?thesis using su parse_decimal_comma [OF \<open>CHR '','' \<in> set u\<close>]
      by (simp add: parse_literal_def)
  qed
  show ?thesis
  proof (cases "remove_underscores s")
    case (Some s')
    then have "CHR '','' \<in> set (float_strip s')"
      using c ns underscore_scan_keeps float_strip_keeps by (simp add: remove_underscores_def)
    then show ?thesis using Some lit by (auto simp: py_float_def Let_def)
  qed (simp add: py_float_def)
qed

section \<open>Properties\<close>

text \<open>C17: \<^verbatim>\<open>rescale_multiarrayline\<close> strips a trailing comma from each value
  between two keys but converts the last value with \<^verbatim>\<open>float(sl[-1])\<close> as it
  is: when the text after the last \<^verbatim>\<open>=\<close> holds a comma (a comma-terminated
  last value, as \<^verbatim>\<open>rescale_arrayline\<close> accepts), the routine raises
  ValueError whatever the factor.\<close>

theorem multiarray_last_comma_fails:
  assumes m: "multi_middle (butlast (tl (split_sep (CHR ''='') l))) = Inr p"
    and c: "CHR '','' \<in> set (last (split_sep (CHR ''='') l))"
  shows "rescale_multiarrayline l s = Inl (ValueError (last (split_sep (CHR ''='') l)))"
  using m py_float_comma [OF c] by (cases p) (simp add: rescale_multiarrayline_def)

theorem multiarray_last_comma_fails_witness:
  "multi_middle (butlast (tl (split_sep (CHR ''='') ''  RBC(0,0) = 1.0, ZBS(0,0) = 0.5,\<newline>''))) =
     Inr ([''ZBS(0,0) ''], [Num False 1]) \<and>
   CHR '','' \<in> set (last (split_sep (CHR ''='') ''  RBC(0,0) = 1.0, ZBS(0,0) = 0.5,\<newline>'')) \<and>
   rescale_multiarrayline ''  RBC(0,0) = 1.0, ZBS(0,0) = 0.5,\<newline>'' (Num False 2) =
     Inl (ValueError (last (split_sep (CHR ''='') ''  RBC(0,0) = 1.0, ZBS(0,0) = 0.5,\<newline>'')))"
proof -
  have m: "multi_middle (butlast (tl (split_sep (CHR ''='') ''  RBC(0,0) = 1.0, ZBS(0,0) = 0.5,\<newline>''))) =
     Inr ([''ZBS(0,0) ''], [Num False 1])" by code_simp
  have c: "CHR '','' \<in> set (last (split_sep (CHR ''='') ''  RBC(0,0) = 1.0, ZBS(0,0) = 0.5,\<newline>''))"
    by code_simp
  show ?thesis using m c multiarray_last_comma_fails [OF m c] by simp
qed

end
