(* ===== verification/Patch.thy ===== *)
theory Patch
  imports Rescale
begin

text \<open>
  The line loop of \<^verbatim>\<open>my_patch\<close> (\<^verbatim>\<open>src/scale_vmec.py\<close>, lines 73--151).
  Each input line loses its comment (text after the first \<^verbatim>\<open>!\<close>), is
  stripped and lower-cased for classification, and is then passed through,
  rescaled as a field assignment, or rescaled as a continuation line with the
  scale factor that the last assignment line left in the variable
  \<^verbatim>\<open>scale\<close>. The loop state is a record of that variable and the output list;
  \<^verbatim>\<open>scale\<close> is \<open>None\<close> until the first assignment line binds it (reading it
  earlier raises UnboundLocalError). The variable \<^verbatim>\<open>func\<close> of the source is
  written and never read, and \<^verbatim>\<open>unit_scaling\<close> is never called, so neither is
  part of the state.
\<close>

section \<open>The field-name rules\<close>

text \<open>Which routine rescales a recognised field, and with which factor.\<close>

datatype style = MultiArray | SingleArray

datatype factor = F_R | F_BR2 | F_B2 | F_BR | F_BdivR

text \<open>The \<^verbatim>\<open>elif\<close> chain of lines 95--134 on the stripped, lower-cased line
  \<open>l\<close>, in the source's order (\<^verbatim>\<open>l[:n] == "..."\<close> is \<open>take n l = ''...''\<close>).\<close>

definition field_rule :: "string \<Rightarrow> (style \<times> factor) option" where
  "field_rule l =
     (if take 3 l = ''rbc'' \<or> take 3 l = ''zbs'' \<or> take 3 l = ''rbs'' \<or> take 3 l = ''zbc''
        then Some (MultiArray, F_R)
      else if take 5 l = ''raxis'' then Some (SingleArray, F_R)
      else if take 8 l = ''raxis_cc'' then Some (SingleArray, F_R)
      else if take 5 l = ''zaxis'' then Some (SingleArray, F_R)
      else if take 8 l = ''zaxis_cc'' then Some (SingleArray, F_R)
      else if take 7 l = ''phiedge'' then Some (SingleArray, F_BR2)
      else if take 10 l = ''pres_scale'' then Some (SingleArray, F_B2)
      else if take 6 l = ''curtor'' then Some (SingleArray, F_BR)
      else if take 2 l = ''ac'' then Some (SingleArray, F_BdivR)
      else if take 2 l = ''am'' then Some (SingleArray, F_B2)
      else None)"

text \<open>The factor expressions, evaluated as Python evaluates them:
  \<^verbatim>\<open>B_scale*R_scale**2\<close> squares first (OverflowError possible),
  \<^verbatim>\<open>B_scale/R_scale\<close> raises ZeroDivisionError for a zero \<^verbatim>\<open>R_scale\<close>.\<close>

definition eval_factor :: "factor \<Rightarrow> pyfloat \<Rightarrow> pyfloat \<Rightarrow> pyfloat result" where
  "eval_factor f R B =
     (case f of
        F_R \<Rightarrow> Inr R
      | F_BR2 \<Rightarrow> rbind (fpow2 R) (\<lambda>r2. Inr (fmul B r2))
      | F_B2 \<Rightarrow> fpow2 B
      | F_BR \<Rightarrow> Inr (fmul B R)
      | F_BdivR \<Rightarrow> fdiv B R)"

definition rescale_with :: "style \<Rightarrow> string \<Rightarrow> pyfloat \<Rightarrow> string result" where
  "rescale_with sty =
     (case sty of MultiArray \<Rightarrow> rescale_multiarrayline | SingleArray \<Rightarrow> rescale_arrayline)"

text \<open>\<^verbatim>\<open>unit_scaling\<close> (lines 8--11), the routine the unrecognised-field
  branch stores in \<^verbatim>\<open>func\<close>. It reads the variable \<^verbatim>\<open>scale\<close> of the
  enclosing \<^verbatim>\<open>my_patch\<close>, whose Python value is one of: unbound (\<open>None\<close>),
  the object \<^verbatim>\<open>None\<close> (\<open>Some None\<close>), or a float (\<open>Some (Some x)\<close>).
  Unbound it raises NameError; \<^verbatim>\<open>None\<close> returns the line (line 11); a float
  raises the ValueError of line 10. The program never calls it, and no
  assignment of the program binds \<^verbatim>\<open>scale\<close> to \<^verbatim>\<open>None\<close>.\<close>

definition unit_scaling :: "pyfloat option option \<Rightarrow> string \<Rightarrow> pyfloat \<Rightarrow> string result" where
  "unit_scaling sc l scalefactor =
     (case sc of
        None \<Rightarrow> Inl NameError
      | Some None \<Rightarrow> Inr l
      | Some (Some s) \<Rightarrow> Inl (ValueError ''Scale is not None. This shouldn't happen.''))"

section \<open>One line\<close>

text \<open>Lines 75--80: \<^verbatim>\<open>ls = line.split("!", 1)\<close>; the comment is \<^verbatim>\<open>ls[1]\<close>
  when there is one (it keeps the line's newline), the text is \<^verbatim>\<open>ls[0]\<close>.\<close>

definition split_comment :: "string \<Rightarrow> string \<times> string" where
  "split_comment line0 =
     (let ls = split_once (CHR ''!'') line0
      in (hd ls, if 1 < length ls then ls ! 1 else []))"

text \<open>Line 81: \<^verbatim>\<open>l = line.strip().lower()\<close>, used for classification only.\<close>

definition line_key :: "string \<Rightarrow> string" where
  "line_key line0 = py_lower (py_strip (fst (split_comment line0)))"

text \<open>The roles of lines 83--144, decided on \<open>l\<close> in the source's order.\<close>

datatype line_kind = Empty | GroupOpen | GroupClose | Assignment | Continuation

definition classify :: "string \<Rightarrow> line_kind" where
  "classify l =
     (if length l = 0 then Empty
      else if hd l = CHR ''&'' then GroupOpen
      else if hd l = CHR ''/'' then GroupClose
      else if CHR ''='' \<in> set l then Assignment
      else Continuation)"

text \<open>Lines 83--144: the new text of the line and the new value of
  \<^verbatim>\<open>scale\<close>. The last test of the source, \<^verbatim>\<open>elif len(l) > 0\<close>, always holds
  when it is reached, since the first test caught the empty \<open>l\<close>.\<close>

definition patch_body ::
  "pyfloat \<Rightarrow> pyfloat \<Rightarrow> pyfloat option \<Rightarrow> string \<Rightarrow> string \<Rightarrow> (string \<times> pyfloat option) result" where
  "patch_body R B sc line l =
     (case classify l of
        Empty \<Rightarrow> Inr (line, sc)
      | GroupOpen \<Rightarrow> Inr (line, sc)
      | GroupClose \<Rightarrow> Inr (line, sc)
      | Assignment \<Rightarrow>
          (case field_rule l of
             Some (sty, f) \<Rightarrow>
               rbind (eval_factor f R B) (\<lambda>s. rbind (rescale_with sty line s) (\<lambda>nl. Inr (nl, Some s)))
           | None \<Rightarrow> Inr (line, Some (Num False 1)))
      | Continuation \<Rightarrow>
          (case sc of
             None \<Rightarrow> Inl UnboundLocalError
           | Some s \<Rightarrow> rbind (rescale_followup line s) (\<lambda>nl. Inr (nl, sc))))"

text \<open>Lines 147--149: the comment, which keeps its newline, goes back after
  a space and the marker.\<close>

definition attach_comment :: "string \<Rightarrow> string \<Rightarrow> string" where
  "attach_comment nl comment = (if 0 < length comment then nl @ '' !'' @ comment else nl)"

section \<open>The loop\<close>

record patch_state =
  scale :: "pyfloat option"
  new_lines :: "string list"

definition patch_init :: patch_state where
  "patch_init = \<lparr>scale = None, new_lines = []\<rparr>"

definition patch_step :: "pyfloat \<Rightarrow> pyfloat \<Rightarrow> patch_state \<Rightarrow> string \<Rightarrow> patch_state result" where
  "patch_step R B st line0 =
     (let (line, comment) = split_comment line0;
          l = py_lower (py_strip line)
      in rbind (patch_body R B (scale st) line l) (\<lambda>(nl, sc).
           Inr (st\<lparr>scale := sc, new_lines := new_lines st @ [attach_comment nl comment]\<rparr>)))"

fun patch_run :: "pyfloat \<Rightarrow> pyfloat \<Rightarrow> patch_state \<Rightarrow> string list \<Rightarrow> patch_state result" where
  "patch_run R B st [] = Inr st"
| "patch_run R B st (x # xs) = rbind (patch_step R B st x) (\<lambda>st'. patch_run R B st' xs)"

text \<open>The loop over the lines read from the file, from the initial state.\<close>

definition patch_lines :: "pyfloat \<Rightarrow> pyfloat \<Rightarrow> string list \<Rightarrow> string list result" where
  "patch_lines R B lines = rbind (patch_run R B patch_init lines) (\<lambda>st. Inr (new_lines st))"

text \<open>The scale factor an assignment line binds to \<^verbatim>\<open>scale\<close> (lines 97--139:
  the rule's factor, or 1.0 for an unrecognised field).\<close>

definition is_assignment :: "string \<Rightarrow> bool" where
  "is_assignment line0 \<longleftrightarrow> classify (line_key line0) = Assignment"

definition line_factor :: "pyfloat \<Rightarrow> pyfloat \<Rightarrow> string \<Rightarrow> pyfloat result" where
  "line_factor R B line0 =
     (case field_rule (line_key line0) of
        Some (sty, f) \<Rightarrow> eval_factor f R B
      | None \<Rightarrow> Inr (Num False 1))"

section \<open>The rule table of the spec\<close>

text \<open>The spec's table (section 4.1) as an ordered list of prefixes, each
  with its routine and factor, and first-match lookup on it. This is the
  abstract contract that the code's \<^verbatim>\<open>elif\<close> chain implements.\<close>

definition spec_rules :: "(string \<times> style \<times> factor) list" where
  "spec_rules =
     [(''rbc'', MultiArray, F_R), (''zbs'', MultiArray, F_R), (''rbs'', MultiArray, F_R),
      (''zbc'', MultiArray, F_R), (''raxis_cc'', SingleArray, F_R), (''raxis'', SingleArray, F_R),
      (''zaxis_cc'', SingleArray, F_R), (''zaxis'', SingleArray, F_R),
      (''phiedge'', SingleArray, F_BR2), (''pres_scale'', SingleArray, F_B2),
      (''curtor'', SingleArray, F_BR), (''ac'', SingleArray, F_BdivR), (''am'', SingleArray, F_B2)]"

fun first_match :: "(string \<times> 'a) list \<Rightarrow> string \<Rightarrow> 'a option" where
  "first_match [] l = None"
| "first_match ((p, r) # rs) l = (if take (length p) l = p then Some r else first_match rs l)"

section \<open>Lemmas: comments\<close>

lemma split_comment_no_marker: "CHR ''!'' \<notin> set x \<Longrightarrow> split_comment x = (x, [])"
  by (simp add: split_comment_def split_once_def)

lemma split_comment_marker:
  assumes "CHR ''!'' \<notin> set a"
  shows "split_comment (a @ CHR ''!'' # c) = (a, c)"
proof -
  have all: "\<forall>x \<in> set a. x \<noteq> CHR ''!''" using assms by blast
  then have "takeWhile (\<lambda>x. x \<noteq> CHR ''!'') (a @ CHR ''!'' # c) = a"
    by (simp add: takeWhile_append2)
  moreover have "dropWhile (\<lambda>x. x \<noteq> CHR ''!'') (a @ CHR ''!'' # c) = CHR ''!'' # c"
    using all by (simp add: dropWhile_append2)
  ultimately show ?thesis by (simp add: split_comment_def split_once_def)
qed

section \<open>Lemmas: one step\<close>

lemma patch_step_eq:
  "patch_step R B st x =
     rbind (patch_body R B (scale st) (fst (split_comment x)) (line_key x)) (\<lambda>(nl, sc).
       Inr (st\<lparr>scale := sc, new_lines := new_lines st @ [attach_comment nl (snd (split_comment x))]\<rparr>))"
  by (simp add: patch_step_def line_key_def split_def Let_def)

lemma patch_step_Inr:
  "patch_step R B st x = Inr st' \<longleftrightarrow>
   (\<exists>nl sc. patch_body R B (scale st) (fst (split_comment x)) (line_key x) = Inr (nl, sc) \<and>
      st' = st\<lparr>scale := sc, new_lines := new_lines st @ [attach_comment nl (snd (split_comment x))]\<rparr>)"
  by (auto simp: patch_step_eq rbind_eq_Inr split: prod.splits)

lemma patch_body_keeps_scale:
  "patch_body R B sc line l = Inr (nl, sc') \<Longrightarrow> classify l \<noteq> Assignment \<Longrightarrow> sc' = sc"
  by (cases "classify l"; cases sc)
     (auto simp: patch_body_def rbind_eq_Inr)

lemma patch_body_sets_scale:
  "patch_body R B sc line l = Inr (nl, sc') \<Longrightarrow> classify l = Assignment \<Longrightarrow>
   \<exists>s. sc' = Some s \<and>
       (case field_rule l of Some (sty, f) \<Rightarrow> eval_factor f R B | None \<Rightarrow> Inr (Num False 1)) = Inr s"
  by (auto simp: patch_body_def rbind_eq_Inr split: option.splits)

lemma patch_step_scale:
  assumes "patch_step R B st x = Inr st'"
  shows "(is_assignment x \<longrightarrow> (\<exists>s. line_factor R B x = Inr s \<and> scale st' = Some s)) \<and>
         (\<not> is_assignment x \<longrightarrow> scale st' = scale st)"
proof -
  obtain nl sc where b: "patch_body R B (scale st) (fst (split_comment x)) (line_key x) = Inr (nl, sc)"
    and st': "scale st' = sc"
    using assms by (auto simp: patch_step_Inr)
  show ?thesis
    using patch_body_keeps_scale [OF b] patch_body_sets_scale [OF b] st'
    by (auto simp: is_assignment_def line_factor_def)
qed

section \<open>Lemmas: the loop\<close>

lemma patch_run_append:
  "patch_run R B st (xs @ ys) = rbind (patch_run R B st xs) (\<lambda>st'. patch_run R B st' ys)"
  by (induction xs arbitrary: st) (auto simp: rbind_def split: sum.splits)

lemma patch_run_Cons_Inr:
  "patch_run R B st (x # xs) = Inr st' \<longleftrightarrow> (\<exists>st1. patch_step R B st x = Inr st1 \<and> patch_run R B st1 xs = Inr st')"
  by (simp add: rbind_eq_Inr)

lemma patch_run_new_lines:
  "patch_run R B st xs = Inr st' \<Longrightarrow>
   \<exists>outs. new_lines st' = new_lines st @ outs \<and> length outs = length xs"
proof (induction xs arbitrary: st)
  case Nil
  then show ?case by simp
next
  case (Cons x xs)
  then obtain st1 where s1: "patch_step R B st x = Inr st1" and r: "patch_run R B st1 xs = Inr st'"
    by (auto simp: rbind_eq_Inr)
  obtain o1 where nl1: "new_lines st1 = new_lines st @ [o1]"
    using s1 by (auto simp: patch_step_Inr)
  obtain outs where "new_lines st' = new_lines st1 @ outs" "length outs = length xs"
    using Cons.IH [OF r] by blast
  then show ?case using nl1 by (intro exI [of _ "o1 # outs"]) simp
qed

lemma patch_run_scale:
  "patch_run R B st xs = Inr st' \<Longrightarrow>
   (filter is_assignment xs = [] \<longrightarrow> scale st' = scale st) \<and>
   (filter is_assignment xs \<noteq> [] \<longrightarrow>
      (\<exists>s. line_factor R B (last (filter is_assignment xs)) = Inr s \<and> scale st' = Some s))"
proof (induction xs arbitrary: st)
  case Nil
  then show ?case by simp
next
  case (Cons x xs)
  then obtain st1 where s1: "patch_step R B st x = Inr st1" and r: "patch_run R B st1 xs = Inr st'"
    by (auto simp: rbind_eq_Inr)
  note step = patch_step_scale [OF s1]
  note IH = Cons.IH [OF r]
  show ?case
  proof (cases "filter is_assignment xs = []")
    case True
    then show ?thesis using step IH by auto
  next
    case False
    then show ?thesis using IH by simp
  qed
qed

text \<open>Line \<open>i\<close> of a successful run: the state before it is the run over the
  lines before it, and its output is the output of its step.\<close>

lemma patch_run_nth:
  assumes run: "patch_run R B st xs = Inr st'" and i: "i < length xs"
  obtains sti nl sc where "patch_run R B st (take i xs) = Inr sti"
    and "patch_body R B (scale sti) (fst (split_comment (xs ! i))) (line_key (xs ! i)) = Inr (nl, sc)"
    and "new_lines st' ! (length (new_lines st) + i) = attach_comment nl (snd (split_comment (xs ! i)))"
proof -
  have xs: "xs = take i xs @ (xs ! i) # drop (Suc i) xs"
    using i by (simp add: id_take_nth_drop)
  from run obtain sti where ri: "patch_run R B st (take i xs) = Inr sti"
    and rest: "patch_run R B sti ((xs ! i) # drop (Suc i) xs) = Inr st'"
    by (subst (asm) xs) (auto simp: patch_run_append rbind_eq_Inr)
  from rest obtain st1 where s1: "patch_step R B sti (xs ! i) = Inr st1"
    and r1: "patch_run R B st1 (drop (Suc i) xs) = Inr st'"
    by (auto simp: rbind_eq_Inr)
  from s1 obtain nl sc where b: "patch_body R B (scale sti) (fst (split_comment (xs ! i))) (line_key (xs ! i)) = Inr (nl, sc)"
    and nl1: "new_lines st1 = new_lines sti @ [attach_comment nl (snd (split_comment (xs ! i)))]"
    by (auto simp: patch_step_Inr)
  have li: "length (new_lines sti) = length (new_lines st) + i"
    using patch_run_new_lines [OF ri] i by auto
  obtain outs where "new_lines st' = new_lines st1 @ outs"
    using patch_run_new_lines [OF r1] by blast
  then have "new_lines st' ! (length (new_lines st) + i) = attach_comment nl (snd (split_comment (xs ! i)))"
    using nl1 li by (simp add: nth_append)
  then show ?thesis using that ri b by blast
qed

lemma patch_lines_Inr:
  "patch_lines R B lines = Inr out \<longleftrightarrow> (\<exists>st. patch_run R B patch_init lines = Inr st \<and> out = new_lines st)"
  by (auto simp: patch_lines_def rbind_eq_Inr)

lemma patch_body_passthrough:
  "classify l \<in> {Empty, GroupOpen, GroupClose} \<Longrightarrow> patch_body R B sc line l = Inr (line, sc)"
  by (auto simp: patch_body_def)

lemma patch_body_unmatched:
  "classify l = Assignment \<Longrightarrow> field_rule l = None \<Longrightarrow>
   patch_body R B sc line l = Inr (line, Some (Num False 1))"
  by (simp add: patch_body_def)

lemma patch_body_matched:
  "classify l = Assignment \<Longrightarrow> field_rule l = Some (sty, f) \<Longrightarrow>
   patch_body R B sc line l =
     rbind (eval_factor f R B) (\<lambda>s. rbind (rescale_with sty line s) (\<lambda>nl. Inr (nl, Some s)))"
  by (simp add: patch_body_def)

lemma patch_body_continuation:
  "classify l = Continuation \<Longrightarrow>
   patch_body R B sc line l =
     (case sc of None \<Rightarrow> Inl UnboundLocalError | Some s \<Rightarrow> rbind (rescale_followup line s) (\<lambda>nl. Inr (nl, sc)))"
  by (simp add: patch_body_def)

lemma patch_lines_nth:
  assumes "patch_lines R B lines = Inr out" "i < length lines"
  obtains sti nl sc where "patch_run R B patch_init (take i lines) = Inr sti"
    and "patch_body R B (scale sti) (fst (split_comment (lines ! i))) (line_key (lines ! i)) = Inr (nl, sc)"
    and "out ! i = attach_comment nl (snd (split_comment (lines ! i)))"
proof -
  obtain st where "patch_run R B patch_init lines = Inr st" "out = new_lines st"
    using assms(1) by (auto simp: patch_lines_Inr)
  then show ?thesis
    using patch_run_nth [of R B patch_init lines st i] assms(2) that by (auto simp: patch_init_def)
qed

lemma patch_run_passthrough_prefix:
  "\<forall>x \<in> set xs. classify (line_key x) \<in> {Empty, GroupOpen, GroupClose} \<Longrightarrow>
   \<exists>st'. patch_run R B st xs = Inr st' \<and> scale st' = scale st"
proof (induction xs arbitrary: st)
  case Nil
  then show ?case by simp
next
  case (Cons x xs)
  then have b: "patch_body R B (scale st) (fst (split_comment x)) (line_key x) = Inr (fst (split_comment x), scale st)"
    by (simp add: patch_body_passthrough)
  define st1 where "st1 = st\<lparr>scale := scale st,
     new_lines := new_lines st @ [attach_comment (fst (split_comment x)) (snd (split_comment x))]\<rparr>"
  have "patch_step R B st x = Inr st1"
    using b by (simp add: patch_step_Inr st1_def)
  moreover obtain st' where "patch_run R B st1 xs = Inr st'" "scale st' = scale st1"
    using Cons by auto
  ultimately show ?case by (simp add: st1_def)
qed

lemma continuation_output:
  assumes ok: "patch_lines R B lines = Inr out" and i: "i < length lines"
    and cont: "classify (line_key (lines ! i)) = Continuation"
  shows "\<exists>s nl. filter is_assignment (take i lines) \<noteq> [] \<and>
           line_factor R B (last (filter is_assignment (take i lines))) = Inr s \<and>
           rescale_followup (fst (split_comment (lines ! i))) s = Inr nl \<and>
           out ! i = attach_comment nl (snd (split_comment (lines ! i)))"
proof -
  obtain sti nl sc where run: "patch_run R B patch_init (take i lines) = Inr sti"
    and b: "patch_body R B (scale sti) (fst (split_comment (lines ! i))) (line_key (lines ! i)) = Inr (nl, sc)"
    and o: "out ! i = attach_comment nl (snd (split_comment (lines ! i)))"
    using patch_lines_nth [OF ok i] by blast
  note sc = patch_run_scale [OF run]
  have ne: "filter is_assignment (take i lines) \<noteq> []"
  proof
    assume "filter is_assignment (take i lines) = []"
    then have "scale sti = None" using sc by (simp add: patch_init_def)
    then show False using b cont by (simp add: patch_body_continuation)
  qed
  then obtain s where f: "line_factor R B (last (filter is_assignment (take i lines))) = Inr s"
    and ss: "scale sti = Some s"
    using sc by blast
  have "rescale_followup (fst (split_comment (lines ! i))) s = Inr nl"
    using b cont ss by (auto simp: patch_body_continuation rbind_eq_Inr)
  then show ?thesis using ne f o by blast
qed

section \<open>Properties of the loop\<close>

text \<open>C1: the engine never adds or drops a line: a successful run yields
  exactly one output line per input line.\<close>

theorem patch_lines_length:
  "patch_lines R B lines = Inr out \<Longrightarrow> length out = length lines"
  using patch_run_new_lines by (fastforce simp: patch_lines_Inr patch_init_def)

text \<open>C2: a continuation line is rescaled with the factor of the nearest
  assignment line before it (the last one among the lines before it, across
  group boundaries), and that assignment exists.\<close>

theorem continuation_inherits_scale:
  assumes ok: "patch_lines R B lines = Inr out" and i: "i < length lines"
    and cont: "classify (line_key (lines ! i)) = Continuation"
  shows "\<exists>s nl. filter is_assignment (take i lines) \<noteq> [] \<and>
           line_factor R B (last (filter is_assignment (take i lines))) = Inr s \<and>
           rescale_followup (fst (split_comment (lines ! i))) s = Inr nl \<and>
           out ! i = attach_comment nl (snd (split_comment (lines ! i)))"
  using continuation_output [OF ok i cont] .

text \<open>C3: a continuation line with no assignment line before it (only empty
  lines and group markers) makes the run fail with UnboundLocalError (the
  spec's OrphanContinuation).\<close>

theorem orphan_continuation_fails:
  assumes "\<forall>x \<in> set pre. classify (line_key x) \<in> {Empty, GroupOpen, GroupClose}"
    and "classify (line_key c) = Continuation"
  shows "patch_lines R B (pre @ c # post) = Inl UnboundLocalError"
proof -
  obtain st' where r: "patch_run R B patch_init pre = Inr st'" and s: "scale st' = None"
    using patch_run_passthrough_prefix [OF assms(1), of R B patch_init] by (auto simp: patch_init_def)
  have "patch_step R B st' c = Inl UnboundLocalError"
    using s assms(2) by (simp add: patch_step_eq patch_body_continuation)
  then show ?thesis
    using r by (simp add: patch_lines_def patch_run_append)
qed

text \<open>C4: a recognised assignment line is rescaled by its rule's routine
  with its rule's factor, and its comment is put back.\<close>

theorem assignment_line_output:
  assumes ok: "patch_lines R B lines = Inr out" and i: "i < length lines"
    and a: "classify (line_key (lines ! i)) = Assignment"
    and r: "field_rule (line_key (lines ! i)) = Some (sty, f)"
  shows "\<exists>s nl. eval_factor f R B = Inr s \<and>
           rescale_with sty (fst (split_comment (lines ! i))) s = Inr nl \<and>
           out ! i = attach_comment nl (snd (split_comment (lines ! i)))"
proof -
  obtain sti nl sc where "patch_run R B patch_init (take i lines) = Inr sti"
    and b: "patch_body R B (scale sti) (fst (split_comment (lines ! i))) (line_key (lines ! i)) = Inr (nl, sc)"
    and o: "out ! i = attach_comment nl (snd (split_comment (lines ! i)))"
    using patch_lines_nth [OF ok i] by blast
  have "rbind (eval_factor f R B) (\<lambda>s. rbind (rescale_with sty (fst (split_comment (lines ! i))) s)
          (\<lambda>nl. Inr (nl, Some s))) = Inr (nl, sc)"
    using b patch_body_matched [OF a r] by simp
  then obtain s where e: "eval_factor f R B = Inr s"
    and "rbind (rescale_with sty (fst (split_comment (lines ! i))) s) (\<lambda>nl. Inr (nl, Some s)) = Inr (nl, sc)"
    unfolding rbind_eq_Inr by blast
  then have "rescale_with sty (fst (split_comment (lines ! i))) s = Inr nl"
    unfolding rbind_eq_Inr by blast
  with e o show ?thesis by blast
qed

text \<open>C5: empty lines, group markers and assignments of unrecognised fields
  are passed through: the text before the comment is kept as it is and the
  comment is re-attached after \<open>'' !''\<close>; a line without a comment marker
  is reproduced byte for byte.\<close>

theorem passthrough_line_output:
  assumes ok: "patch_lines R B lines = Inr out" and i: "i < length lines"
    and p: "classify (line_key (lines ! i)) \<in> {Empty, GroupOpen, GroupClose} \<or>
            (classify (line_key (lines ! i)) = Assignment \<and> field_rule (line_key (lines ! i)) = None)"
  shows "out ! i = attach_comment (fst (split_comment (lines ! i))) (snd (split_comment (lines ! i)))
         \<and> (CHR ''!'' \<notin> set (lines ! i) \<longrightarrow> out ! i = lines ! i)"
proof -
  obtain sti nl sc where "patch_run R B patch_init (take i lines) = Inr sti"
    and b: "patch_body R B (scale sti) (fst (split_comment (lines ! i))) (line_key (lines ! i)) = Inr (nl, sc)"
    and o: "out ! i = attach_comment nl (snd (split_comment (lines ! i)))"
    using patch_lines_nth [OF ok i] by blast
  have "nl = fst (split_comment (lines ! i))"
    using p
  proof (elim disjE conjE)
    assume "classify (line_key (lines ! i)) \<in> {Empty, GroupOpen, GroupClose}"
    with b show ?thesis by (simp add: patch_body_passthrough)
  next
    assume "classify (line_key (lines ! i)) = Assignment" "field_rule (line_key (lines ! i)) = None"
    with b show ?thesis by (simp add: patch_body_unmatched)
  qed
  with o have o': "out ! i = attach_comment (fst (split_comment (lines ! i))) (snd (split_comment (lines ! i)))"
    by simp
  moreover have "CHR ''!'' \<notin> set (lines ! i) \<Longrightarrow> out ! i = lines ! i"
    using o' by (simp add: split_comment_no_marker attach_comment_def)
  ultimately show ?thesis by blast
qed

text \<open>C6: an inline comment survives verbatim: whatever the line's role, the
  text after its first \<^verbatim>\<open>!\<close> ends the output line, after \<^verbatim>\<open>" !"\<close>.\<close>

theorem comment_reattached:
  assumes ok: "patch_lines R B lines = Inr out" and i: "i < length lines"
    and l: "lines ! i = a @ CHR ''!'' # c" and a: "CHR ''!'' \<notin> set a" and c: "c \<noteq> []"
  shows "\<exists>nl. out ! i = nl @ '' !'' @ c"
proof -
  obtain sti nl sc where "patch_run R B patch_init (take i lines) = Inr sti"
    and "patch_body R B (scale sti) (fst (split_comment (lines ! i))) (line_key (lines ! i)) = Inr (nl, sc)"
    and o: "out ! i = attach_comment nl (snd (split_comment (lines ! i)))"
    using patch_lines_nth [OF ok i] by blast
  then have "out ! i = nl @ '' !'' @ c"
    using l a c by (simp add: split_comment_marker attach_comment_def)
  then show ?thesis by blast
qed

section \<open>The rule table and the scale variable\<close>

lemma take_prefix_shorter:
  "take n l = p \<Longrightarrow> m \<le> n \<Longrightarrow> take m l = take m p"
  by (metis min.absorb1 take_take)

text \<open>C7: the code's \<^verbatim>\<open>elif\<close> chain computes the spec's first-match table,
  although it tests \<^verbatim>\<open>raxis\<close> before \<^verbatim>\<open>raxis_cc\<close> and \<^verbatim>\<open>zaxis\<close> before
  \<^verbatim>\<open>zaxis_cc\<close> (which makes its two \<open>_cc\<close> branches unreachable): the
  shadowing entries carry the same routine and factor.\<close>

theorem field_rule_refines_spec_table: "field_rule l = first_match spec_rules l"
proof -
  have rcc: "take 8 l \<noteq> ''raxis_cc''" if "take 5 l \<noteq> ''raxis''"
    using that take_prefix_shorter [of 8 l "''raxis_cc''" 5] by auto
  have zcc: "take 8 l \<noteq> ''zaxis_cc''" if "take 5 l \<noteq> ''zaxis''"
    using that take_prefix_shorter [of 8 l "''zaxis_cc''" 5] by auto
  note defs = field_rule_def spec_rules_def eval_nat_numeral
  show ?thesis
  proof (cases "take 3 l = ''rbc'' \<or> take 3 l = ''zbs'' \<or> take 3 l = ''rbs'' \<or> take 3 l = ''zbc''")
    case True
    then show ?thesis by (auto simp: defs)
  next
    case c1: False
    show ?thesis
    proof (cases "take 5 l = ''raxis''")
      case True
      then show ?thesis using c1 by (simp add: defs)
    next
      case c2: False
      show ?thesis
      proof (cases "take 5 l = ''zaxis''")
        case True
        then show ?thesis using c1 c2 rcc [OF c2] by (simp add: defs)
      next
        case c3: False
        show ?thesis
        proof (cases "take 7 l = ''phiedge''")
          case True
          then show ?thesis using c1 c2 c3 rcc [OF c2] zcc [OF c3] by (simp add: defs)
        next
          case c4: False
          show ?thesis
          proof (cases "take 10 l = ''pres_scale''")
            case True
            then show ?thesis using c1 c2 c3 c4 rcc [OF c2] zcc [OF c3] by (simp add: defs)
          next
            case c5: False
            show ?thesis
            proof (cases "take 6 l = ''curtor''")
              case True
              then show ?thesis using c1 c2 c3 c4 c5 rcc [OF c2] zcc [OF c3] by (simp add: defs)
            next
              case c6: False
              show ?thesis
              proof (cases "take 2 l = ''ac''")
                case True
                then show ?thesis using c1 c2 c3 c4 c5 c6 rcc [OF c2] zcc [OF c3] by (simp add: defs)
              next
                case c7: False
                show ?thesis
                proof (cases "take 2 l = ''am''")
                  case True
                  then show ?thesis using c1 c2 c3 c4 c5 c6 c7 rcc [OF c2] zcc [OF c3] by (simp add: defs)
                next
                  case c8: False
                  show ?thesis using c1 c2 c3 c4 c5 c6 c7 c8 rcc [OF c2] zcc [OF c3] by (simp add: defs)
                qed
              qed
            qed
          qed
        qed
      qed
    qed
  qed
qed

lemma field_rule_ac: "take 2 l = ''ac'' \<Longrightarrow> field_rule l = Some (SingleArray, F_BdivR)"
proof -
  assume ac: "take 2 l = ''ac''"
  have p: "take 2 p = ''ac''" if "take k l = p" "2 \<le> k" for k p
    using that ac by (metis min.absorb1 take_take)
  have "take 3 l \<noteq> ''rbc''" "take 3 l \<noteq> ''zbs''" "take 3 l \<noteq> ''rbs''" "take 3 l \<noteq> ''zbc''"
    "take 5 l \<noteq> ''raxis''" "take 8 l \<noteq> ''raxis_cc''" "take 5 l \<noteq> ''zaxis''" "take 8 l \<noteq> ''zaxis_cc''"
    "take 7 l \<noteq> ''phiedge''" "take 10 l \<noteq> ''pres_scale''" "take 6 l \<noteq> ''curtor''"
    using p by fastforce+
  then show ?thesis using ac by (simp add: field_rule_def)
qed

text \<open>C15: a continuation line of an unrecognised field is not passed
  through: the assignment bound \<^verbatim>\<open>scale\<close> to 1.0, so the line is rewritten
  with its values unchanged but re-rendered in the 15-digit format (an
  integer becomes a real literal), whatever the scale factors.\<close>

theorem unrecognised_continuation_reformatted:
  assumes ok: "patch_lines R B lines = Inr out" and i: "i < length lines"
    and cont: "classify (line_key (lines ! i)) = Continuation"
    and u: "field_rule (line_key (last (filter is_assignment (take i lines)))) = None"
  shows "\<exists>vs nl. parse_values (split_ws (fst (split_comment (lines ! i)))) = Inr vs \<and>
           keep_newline (fst (split_comment (lines ! i))) (format_values vs) = Inr nl \<and>
           out ! i = attach_comment nl (snd (split_comment (lines ! i)))"
proof -
  obtain s nl where f: "line_factor R B (last (filter is_assignment (take i lines))) = Inr s"
    and r: "rescale_followup (fst (split_comment (lines ! i))) s = Inr nl"
    and o: "out ! i = attach_comment nl (snd (split_comment (lines ! i)))"
    using continuation_output [OF ok i cont] by blast
  have "s = Num False 1" using f u by (simp add: line_factor_def)
  then obtain vs where vs: "parse_values (split_ws (fst (split_comment (lines ! i)))) = Inr vs"
    and k: "keep_newline (fst (split_comment (lines ! i))) (format_values (scale_values vs (Num False 1))) = Inr nl"
    using r by (auto simp: rescale_followup_def rbind_eq_Inr)
  have "scale_values vs (Num False 1) = vs" using parse_values_wf [OF vs] by (blast intro: scale_values_one)
  then show ?thesis using vs k o by auto
qed

text \<open>C16: with \<^verbatim>\<open>R_scale\<close> zero (of either sign), every assignment to a
  field whose name starts with \<^verbatim>\<open>ac\<close> (also \<^verbatim>\<open>ac_aux_s\<close>, \<^verbatim>\<open>ac_aux_f\<close>)
  raises ZeroDivisionError from \<^verbatim>\<open>B_scale/R_scale\<close>, before its values are
  read, whatever the line holds and whatever the state of the loop.\<close>

theorem ac_field_zero_R_raises:
  assumes z: "is_zero R" and ac: "take 2 (line_key x) = ''ac''" and eq: "CHR ''='' \<in> set (line_key x)"
  shows "patch_step R B st x = Inl ZeroDivisionError"
proof -
  have ne: "line_key x \<noteq> []" using ac by auto
  have "hd (line_key x) = CHR ''a''" using ac by (cases "line_key x") auto
  then have "classify (line_key x) = Assignment" using ne eq by (simp add: classify_def)
  then show ?thesis using field_rule_ac [OF ac] z
    by (simp add: patch_step_eq patch_body_def eval_factor_def fdiv_def)
qed


lemma patch_lines_length_witness:
  "patch_lines (Num False 2) (Num False 3) [''&indata'', ''raxis = 1'', ''  2'', ''/''] =
     Inr [''&indata'', ''raxis  =  2.000000000000000e+00'', '' 4.000000000000000e+00'', ''/''] \<and>
   length [''&indata'', ''raxis  =  2.000000000000000e+00'', '' 4.000000000000000e+00'', ''/''] =
   length [''&indata'', ''raxis = 1'', ''  2'', ''/'']"
proof -
  have h: "patch_lines (Num False 2) (Num False 3) [''&indata'', ''raxis = 1'', ''  2'', ''/''] =
     Inr [''&indata'', ''raxis  =  2.000000000000000e+00'', '' 4.000000000000000e+00'', ''/'']"
    by code_simp
  show ?thesis using h patch_lines_length [OF h] by simp
qed

lemma continuation_inherits_scale_witness:
  "patch_lines (Num False 2) (Num False 3) [''raxis = 1'', ''  2''] =
     Inr [''raxis  =  2.000000000000000e+00'', '' 4.000000000000000e+00''] \<and>
   (1::nat) < length [''raxis = 1'', ''  2''] \<and>
   classify (line_key ([''raxis = 1'', ''  2''] ! 1)) = Continuation \<and>
   (\<exists>s nl. filter is_assignment (take 1 [''raxis = 1'', ''  2'']) \<noteq> [] \<and>
      line_factor (Num False 2) (Num False 3) (last (filter is_assignment (take 1 [''raxis = 1'', ''  2'']))) = Inr s \<and>
      rescale_followup (fst (split_comment ([''raxis = 1'', ''  2''] ! 1))) s = Inr nl \<and>
      [''raxis  =  2.000000000000000e+00'', '' 4.000000000000000e+00''] ! 1 =
        attach_comment nl (snd (split_comment ([''raxis = 1'', ''  2''] ! 1))))"
proof -
  have h: "patch_lines (Num False 2) (Num False 3) [''raxis = 1'', ''  2''] =
     Inr [''raxis  =  2.000000000000000e+00'', '' 4.000000000000000e+00'']"
    by code_simp
  have c: "classify (line_key ([''raxis = 1'', ''  2''] ! 1)) = Continuation"
    by code_simp
  show ?thesis using h c continuation_inherits_scale [OF h _ c] by simp
qed

lemma orphan_continuation_fails_witness:
  "classify (line_key ''&indata'') = GroupOpen \<and>
   classify (line_key ''  1.0 2.0'') = Continuation \<and>
   patch_lines (Num False 2) (Num False 3) ([''&indata''] @ ''  1.0 2.0'' # [''/'']) = Inl UnboundLocalError"
proof -
  have g: "classify (line_key ''&indata'') = GroupOpen"
    by code_simp
  then have p: "\<forall>x \<in> set [''&indata'']. classify (line_key x) \<in> {Empty, GroupOpen, GroupClose}"
    by simp
  have c: "classify (line_key ''  1.0 2.0'') = Continuation"
    by code_simp
  show ?thesis using g c orphan_continuation_fails [OF p c] by blast
qed

lemma assignment_line_output_witness:
  "patch_lines (Num False 2) (Num False 3) [''phiedge = 1.0 ! flux''] =
     Inr [''phiedge  =  1.200000000000000e+01 ! flux''] \<and>
   (0::nat) < length [''phiedge = 1.0 ! flux''] \<and>
   classify (line_key ([''phiedge = 1.0 ! flux''] ! 0)) = Assignment \<and>
   field_rule (line_key ([''phiedge = 1.0 ! flux''] ! 0)) = Some (SingleArray, F_BR2) \<and>
   (\<exists>s nl. eval_factor F_BR2 (Num False 2) (Num False 3) = Inr s \<and>
      rescale_with SingleArray (fst (split_comment ([''phiedge = 1.0 ! flux''] ! 0))) s = Inr nl \<and>
      [''phiedge  =  1.200000000000000e+01 ! flux''] ! 0 =
        attach_comment nl (snd (split_comment ([''phiedge = 1.0 ! flux''] ! 0))))"
proof -
  have h: "patch_lines (Num False 2) (Num False 3) [''phiedge = 1.0 ! flux''] =
     Inr [''phiedge  =  1.200000000000000e+01 ! flux'']"
    by code_simp
  have a: "classify (line_key ([''phiedge = 1.0 ! flux''] ! 0)) = Assignment"
    by code_simp
  have r: "field_rule (line_key ([''phiedge = 1.0 ! flux''] ! 0)) = Some (SingleArray, F_BR2)"
    by code_simp
  show ?thesis using h a r assignment_line_output [OF h _ a r] by simp
qed

lemma passthrough_line_output_witness:
  "patch_lines (Num False 2) (Num False 3) [''  NTOR = 5'', ''/''] = Inr [''  NTOR = 5'', ''/''] \<and>
   (0::nat) < length [''  NTOR = 5'', ''/''] \<and>
   (classify (line_key ([''  NTOR = 5'', ''/''] ! 0)) \<in> {Empty, GroupOpen, GroupClose} \<or>
    (classify (line_key ([''  NTOR = 5'', ''/''] ! 0)) = Assignment \<and>
     field_rule (line_key ([''  NTOR = 5'', ''/''] ! 0)) = None)) \<and>
   [''  NTOR = 5'', ''/''] ! 0 = ''  NTOR = 5''"
proof -
  have h: "patch_lines (Num False 2) (Num False 3) [''  NTOR = 5'', ''/''] = Inr [''  NTOR = 5'', ''/'']"
    by code_simp
  have p: "classify (line_key ([''  NTOR = 5'', ''/''] ! 0)) \<in> {Empty, GroupOpen, GroupClose} \<or>
    (classify (line_key ([''  NTOR = 5'', ''/''] ! 0)) = Assignment \<and>
     field_rule (line_key ([''  NTOR = 5'', ''/''] ! 0)) = None)"
    by code_simp
  have "CHR ''!'' \<notin> set ([''  NTOR = 5'', ''/''] ! 0)" by simp
  then show ?thesis using h p passthrough_line_output [OF h _ p] by simp
qed

lemma comment_reattached_witness:
  "patch_lines (Num False 2) (Num False 3) [''  NTOR = 5 ! modes''] = Inr [''  NTOR = 5  ! modes''] \<and>
   (0::nat) < length [''  NTOR = 5 ! modes''] \<and>
   [''  NTOR = 5 ! modes''] ! 0 = ''  NTOR = 5 '' @ CHR ''!'' # '' modes'' \<and>
   CHR ''!'' \<notin> set ''  NTOR = 5 '' \<and> '' modes'' \<noteq> [] \<and>
   (\<exists>nl. [''  NTOR = 5  ! modes''] ! 0 = nl @ '' !'' @ '' modes'')"
proof -
  have h: "patch_lines (Num False 2) (Num False 3) [''  NTOR = 5 ! modes''] = Inr [''  NTOR = 5  ! modes'']"
    by code_simp
  have l: "[''  NTOR = 5 ! modes''] ! 0 = ''  NTOR = 5 '' @ CHR ''!'' # '' modes''" by simp
  have a: "CHR ''!'' \<notin> set ''  NTOR = 5 ''" by simp
  show ?thesis using h l a comment_reattached [OF h _ l a] by simp
qed

lemma unrecognised_continuation_reformatted_witness:
  "patch_lines (Num False 2) (Num False 3) [''  NS_ARRAY = 16 32'', ''    64''] = Inr [''  NS_ARRAY = 16 32'', '' 6.400000000000000e+01''] \<and>
   (1::nat) < length [''  NS_ARRAY = 16 32'', ''    64''] \<and>
   classify (line_key ([''  NS_ARRAY = 16 32'', ''    64''] ! 1)) = Continuation \<and>
   field_rule (line_key (last (filter is_assignment (take 1 [''  NS_ARRAY = 16 32'', ''    64''])))) = None \<and>
   (\<exists>vs nl. parse_values (split_ws (fst (split_comment ([''  NS_ARRAY = 16 32'', ''    64''] ! 1)))) = Inr vs \<and>
      keep_newline (fst (split_comment ([''  NS_ARRAY = 16 32'', ''    64''] ! 1))) (format_values vs) = Inr nl \<and>
      [''  NS_ARRAY = 16 32'', '' 6.400000000000000e+01''] ! 1 =
        attach_comment nl (snd (split_comment ([''  NS_ARRAY = 16 32'', ''    64''] ! 1))))"
proof -
  have h: "patch_lines (Num False 2) (Num False 3) [''  NS_ARRAY = 16 32'', ''    64''] = Inr [''  NS_ARRAY = 16 32'', '' 6.400000000000000e+01'']"
    by code_simp
  have c: "classify (line_key ([''  NS_ARRAY = 16 32'', ''    64''] ! 1)) = Continuation" by code_simp
  have u: "field_rule (line_key (last (filter is_assignment (take 1 [''  NS_ARRAY = 16 32'', ''    64''])))) = None"
    by code_simp
  show ?thesis using h c u unrecognised_continuation_reformatted [OF h _ c u] by simp
qed

lemma ac_field_zero_R_raises_witness:
  "is_zero (Num True 0) \<and> take 2 (line_key ''  AC_AUX_S = 0.0 0.5'') = ''ac'' \<and>
   CHR ''='' \<in> set (line_key ''  AC_AUX_S = 0.0 0.5'') \<and>
   patch_step (Num True 0) (Num False 2) patch_init ''  AC_AUX_S = 0.0 0.5'' = Inl ZeroDivisionError"
proof -
  have z: "is_zero (Num True 0)" by (simp add: is_zero_def)
  have a: "take 2 (line_key ''  AC_AUX_S = 0.0 0.5'') = ''ac''" by code_simp
  have e: "CHR ''='' \<in> set (line_key ''  AC_AUX_S = 0.0 0.5'')" by code_simp
  show ?thesis using z a e ac_field_zero_R_raises [OF z a e] by simp
qed

end
