(* ===== verification/Driver.thy ===== *)
theory Driver
  imports Patch
begin

text \<open>
  The file handling around the loop (\<^verbatim>\<open>src/scale_vmec.py\<close>: the read in
  \<^verbatim>\<open>my_patch\<close>, lines 71--72; \<^verbatim>\<open>scale_vmec\<close>, lines 154--161; the
  \<^verbatim>\<open>__main__\<close> block, lines 164--179). The file system is a store from
  paths to text contents. Python opens files in text mode with universal
  newlines: on reading, \<^verbatim>\<open>\r\n\<close> and a lone \<^verbatim>\<open>\r\<close> become \<^verbatim>\<open>\n\<close>, and
  \<^verbatim>\<open>readlines\<close> cuts after each \<^verbatim>\<open>\n\<close>, keeping it; on writing (POSIX),
  \<^verbatim>\<open>writelines\<close> concatenates the lines and opening with \<^verbatim>\<open>'w'\<close> replaces
  the old contents. What the program prints is recorded as events: the usage
  line, and the line echoing the two factors (whose digits, Python's
  shortest \<^verbatim>\<open>repr\<close> of a float, are not modelled).
\<close>

type_synonym path = string

type_synonym fstore = "path \<rightharpoonup> string"

section \<open>Reading and writing text\<close>

text \<open>Universal-newline translation of the text read.\<close>

fun translate_newlines :: "string \<Rightarrow> string" where
  "translate_newlines [] = []"
| "translate_newlines [c] = (if c = CHR 0x0D then [CHR ''\<newline>''] else [c])"
| "translate_newlines (c # d # cs) =
     (if c = CHR 0x0D
      then CHR ''\<newline>'' # translate_newlines (if d = CHR ''\<newline>'' then cs else d # cs)
      else c # translate_newlines (d # cs))"

text \<open>\<^verbatim>\<open>f.readlines()\<close> on the translated text; \<open>cur\<close> is the line read so
  far, reversed.\<close>

fun readlines_acc :: "string \<Rightarrow> string \<Rightarrow> string list" where
  "readlines_acc cur [] = (if cur = [] then [] else [rev cur])"
| "readlines_acc cur (c # cs) =
     (if c = CHR ''\<newline>'' then rev (c # cur) # readlines_acc [] cs else readlines_acc (c # cur) cs)"

definition py_readlines :: "string \<Rightarrow> string list" where
  "py_readlines s = readlines_acc [] (translate_newlines s)"

text \<open>\<^verbatim>\<open>f.writelines(lines)\<close> into a file opened with \<^verbatim>\<open>'w'\<close>.\<close>

definition py_writelines :: "fstore \<Rightarrow> path \<Rightarrow> string list \<Rightarrow> fstore" where
  "py_writelines fs p lines = fs(p \<mapsto> concat lines)"

section \<open>The functions of the module\<close>

text \<open>\<^verbatim>\<open>my_patch(inputFilename, R_scale, B_scale)\<close>: open and read the input
  (FileNotFoundError when it does not exist), then the loop of \<open>Patch\<close>.\<close>

definition my_patch :: "fstore \<Rightarrow> path \<Rightarrow> pyfloat \<Rightarrow> pyfloat \<Rightarrow> string list result" where
  "my_patch fs inputFilename R_scale B_scale =
     (case fs inputFilename of
        None \<Rightarrow> Inl (FileNotFoundError inputFilename)
      | Some content \<Rightarrow> patch_lines R_scale B_scale (py_readlines content))"

text \<open>\<^verbatim>\<open>scale_vmec(inputFilename, B_scale, R_scale, outputFilename=None)\<close>:
  the default output name, the transformation, and only then the write.
  Note the order of the factors: \<^verbatim>\<open>scale_vmec\<close> takes \<open>B\<close> first and passes
  \<open>R\<close> first to \<^verbatim>\<open>my_patch\<close>.\<close>

definition default_output :: "path \<Rightarrow> path" where
  "default_output inputFilename = inputFilename @ ''_scaled''"

definition output_name :: "path \<Rightarrow> path option \<Rightarrow> path" where
  "output_name inputFilename outputFilename =
     (case outputFilename of None \<Rightarrow> default_output inputFilename | Some p \<Rightarrow> p)"

text \<open>The store when the call ends and the exception it raised, if any.\<close>

definition scale_vmec ::
  "fstore \<Rightarrow> path \<Rightarrow> pyfloat \<Rightarrow> pyfloat \<Rightarrow> path option \<Rightarrow> fstore \<times> py_error option" where
  "scale_vmec fs inputFilename B_scale R_scale outputFilename =
     (case my_patch fs inputFilename R_scale B_scale of
        Inl e \<Rightarrow> (fs, Some e)
      | Inr ls \<Rightarrow> (py_writelines fs (output_name inputFilename outputFilename) ls, None))"

text \<open>The \<^verbatim>\<open>__main__\<close> block with \<^verbatim>\<open>argv = sys.argv\<close> (the program name first).\<close>

text \<open>Lines 168--171: the optional fourth argument names the output.\<close>

definition cli_output :: "string list \<Rightarrow> path option" where
  "cli_output argv = (if length argv = 5 then Some (argv ! 4) else None)"

datatype printed = PrintUsage | PrintScales pyfloat pyfloat

record main_result =
  stdout :: "printed list"
  files :: fstore
  raised :: "py_error option"

definition scale_vmec_main :: "string list \<Rightarrow> fstore \<Rightarrow> main_result" where
  "scale_vmec_main argv fs =
     (if length argv < 4 then \<lparr>stdout = [PrintUsage], files = fs, raised = None\<rparr>
      else
        let outputFilename = cli_output argv;
            inputFilename = argv ! 1
        in case py_float (argv ! 2) of
             Inl e \<Rightarrow> \<lparr>stdout = [PrintUsage], files = fs, raised = Some e\<rparr>
           | Inr B_scale \<Rightarrow>
               (case py_float (argv ! 3) of
                  Inl e \<Rightarrow> \<lparr>stdout = [PrintUsage], files = fs, raised = Some e\<rparr>
                | Inr R_scale \<Rightarrow>
                    (let (fs', ex) = scale_vmec fs inputFilename B_scale R_scale outputFilename
                     in \<lparr>stdout = [PrintUsage, PrintScales B_scale R_scale], files = fs', raised = ex\<rparr>)))"

section \<open>Lemmas\<close>

subsection \<open>Writing and the command line\<close>

lemma scale_vmec_success:
  "my_patch fs i R B = Inr ls \<Longrightarrow> scale_vmec fs i B R out = (fs(output_name i out \<mapsto> concat ls), None)"
  by (simp add: scale_vmec_def py_writelines_def)

lemma scale_vmec_error:
  "my_patch fs i R B = Inl e \<Longrightarrow> scale_vmec fs i B R out = (fs, Some e)"
  by (simp add: scale_vmec_def)

lemma scale_vmec_raised:
  "scale_vmec fs i B R out = (fs', Some e) \<Longrightarrow> fs' = fs"
  by (cases "my_patch fs i R B") (auto simp: scale_vmec_success scale_vmec_error)

lemma scale_vmec_frame:
  "scale_vmec fs i B R out = (fs', ex) \<Longrightarrow> p \<noteq> output_name i out \<Longrightarrow> fs' p = fs p"
  by (cases "my_patch fs i R B") (auto simp: scale_vmec_success scale_vmec_error)

text \<open>The three ways the block ends once it has four arguments: a bad
  factor, or the state \<^verbatim>\<open>scale_vmec\<close> leaves.\<close>

lemma scale_vmec_main_long:
  assumes "4 \<le> length argv"
  shows "scale_vmec_main argv fs =
    (case py_float (argv ! 2) of
       Inl e \<Rightarrow> \<lparr>stdout = [PrintUsage], files = fs, raised = Some e\<rparr>
     | Inr B \<Rightarrow> (case py_float (argv ! 3) of
         Inl e \<Rightarrow> \<lparr>stdout = [PrintUsage], files = fs, raised = Some e\<rparr>
       | Inr R \<Rightarrow> (let (fs', ex) = scale_vmec fs (argv ! 1) B R (cli_output argv)
                   in \<lparr>stdout = [PrintUsage, PrintScales B R], files = fs', raised = ex\<rparr>)))"
proof -
  from assms have "\<not> length argv < 4" by simp
  then show ?thesis unfolding scale_vmec_main_def Let_def by (simp only: if_False)
qed

section \<open>Properties\<close>

text \<open>C8: with fewer than three arguments the program prints the usage
  line and stops normally, touching no file.\<close>

theorem scale_vmec_main_usage:
  "length argv < 4 \<Longrightarrow> scale_vmec_main argv fs = \<lparr>stdout = [PrintUsage], files = fs, raised = None\<rparr>"
  by (simp add: scale_vmec_main_def)

theorem scale_vmec_main_usage_witness:
  "scale_vmec_main [''scale_vmec.py'', ''input.vmec''] Map.empty =
     \<lparr>stdout = [PrintUsage], files = Map.empty, raised = None\<rparr>"
  by (rule scale_vmec_main_usage) simp

text \<open>C9: a run that raises leaves every file as it was: the output is
  opened only after the whole transformation has succeeded.\<close>

theorem error_leaves_files_unchanged:
  "raised (scale_vmec_main argv fs) \<noteq> None \<Longrightarrow> files (scale_vmec_main argv fs) = fs"
proof (cases "length argv < 4")
  case False
  then show "raised (scale_vmec_main argv fs) \<noteq> None \<Longrightarrow> ?thesis"
    by (auto simp: scale_vmec_main_long dest: scale_vmec_raised split: sum.splits prod.splits)
qed (simp add: scale_vmec_main_def)

theorem error_leaves_files_unchanged_witness:
  "files (scale_vmec_main [''scale_vmec.py'', ''in'', ''3'', ''2''] Map.empty) = Map.empty"
  by (rule error_leaves_files_unchanged) code_simp

text \<open>C10: a run writes at most one file, the output: the fourth argument,
  or the input's name with \<^verbatim>\<open>_scaled\<close> appended.\<close>

theorem scale_vmec_main_frame:
  "p \<noteq> output_name (argv ! 1) (cli_output argv) \<Longrightarrow> files (scale_vmec_main argv fs) p = fs p"
proof (cases "length argv < 4")
  case False
  then show "p \<noteq> output_name (argv ! 1) (cli_output argv) \<Longrightarrow> ?thesis"
    by (auto simp: scale_vmec_main_long One_nat_def dest: scale_vmec_frame split: sum.splits prod.splits)
qed (simp add: scale_vmec_main_def)

theorem scale_vmec_main_frame_witness:
  "files (scale_vmec_main [''scale_vmec.py'', ''in'', ''3'', ''2''] [''in'' \<mapsto> ''PHIEDGE = 1.0\<newline>'']) ''in'' =
     Some ''PHIEDGE = 1.0\<newline>''"
  using scale_vmec_main_frame [of "''in''" "[''scale_vmec.py'', ''in'', ''3'', ''2'']"
      "[''in'' \<mapsto> ''PHIEDGE = 1.0\<newline>'']"]
  by (simp add: output_name_def cli_output_def default_output_def)

text \<open>C11: a successful run with factors \<open>B\<close> (second argument) and \<open>R\<close>
  (third argument) writes the transformed lines, rescaled with \<open>R\<close> as the
  length factor and \<open>B\<close> as the field factor, to the output file and
  echoes the two factors after the usage line.\<close>

theorem scale_vmec_main_success:
  assumes "4 \<le> length argv" "py_float (argv ! 2) = Inr B" "py_float (argv ! 3) = Inr R"
    and "fs (argv ! 1) = Some c" "patch_lines R B (py_readlines c) = Inr ls"
  shows "scale_vmec_main argv fs =
           \<lparr>stdout = [PrintUsage, PrintScales B R],
            files = fs(output_name (argv ! 1) (cli_output argv) \<mapsto> concat ls), raised = None\<rparr>"
proof -
  have "my_patch fs (argv ! 1) R B = Inr ls" using assms(4,5) by (simp add: my_patch_def)
  then show ?thesis using assms(1-3) by (simp add: scale_vmec_main_long scale_vmec_success)
qed

theorem scale_vmec_main_success_witness:
  "scale_vmec_main [''scale_vmec.py'', ''in'', ''3'', ''2''] [''in'' \<mapsto> ''PHIEDGE = 1.0\<newline>''] =
     \<lparr>stdout = [PrintUsage, PrintScales (Num False 3) (Num False 2)],
      files = [''in'' \<mapsto> ''PHIEDGE = 1.0\<newline>'', ''in_scaled'' \<mapsto> ''PHIEDGE  =  1.200000000000000e+01\<newline>''],
      raised = None\<rparr>"
proof -
  have b: "py_float ''3'' = Inr (Num False 3)" by code_simp
  have r: "py_float ''2'' = Inr (Num False 2)" by code_simp
  have p: "patch_lines (Num False 2) (Num False 3) (py_readlines ''PHIEDGE = 1.0\<newline>'') =
             Inr [''PHIEDGE  =  1.200000000000000e+01\<newline>'']" by code_simp
  show ?thesis
    using scale_vmec_main_success [of "[''scale_vmec.py'', ''in'', ''3'', ''2'']" "Num False 3" "Num False 2"
        "[''in'' \<mapsto> ''PHIEDGE = 1.0\<newline>'']" "''PHIEDGE = 1.0\<newline>''"] b r p
    by (simp add: output_name_def cli_output_def default_output_def)
qed

text \<open>C12: what the program prints: the usage line on every run, also a
  successful one, then the two factors once both have been converted.\<close>

theorem scale_vmec_main_stdout:
  "stdout (scale_vmec_main argv fs) =
     PrintUsage # (if length argv < 4 then []
                   else case (py_float (argv ! 2), py_float (argv ! 3)) of
                          (Inr B, Inr R) \<Rightarrow> [PrintScales B R]
                        | _ \<Rightarrow> [])"
proof (cases "length argv < 4")
  case False
  then show ?thesis
    by (auto simp: scale_vmec_main_long split: sum.splits prod.splits)
qed (simp add: scale_vmec_main_def)

end
