(* ===== verification/FormatParse.thy ===== *)
theory FormatParse
  imports Binary64
begin

text \<open>
  The round trip between the format \<^verbatim>\<open>"{: .15e}"\<close> (\<open>fmt_e15\<close>) and
  \<^verbatim>\<open>float\<close> (\<open>py_float\<close>) of \<open>PyFloat\<close>, which the program performs
  whenever a rescaled file is rescaled again. The format writes the
  sixteen significant digits \<open>D\<close> (\<open>10^15 \<le> D < 10^16\<close>) and the decimal
  exponent; \<open>e15_value\<close> is the decimal number so written. Reading it back
  goes through every stage of the parser (underscores, whitespace, sign,
  mantissa, exponent) and yields that decimal rounded to binary64.
\<close>

text \<open>The decimal number that \<open>"{: .15e}"\<close> writes for a magnitude \<open>m\<close>.\<close>

definition e15_value :: "rat \<Rightarrow> rat" where
  "e15_value m = (if m = 0 then 0 else case sci_digits m of (D, d) \<Rightarrow> of_int D * 10 powi (d - 15))"

text \<open>The float that \<^verbatim>\<open>float\<close> reads back from the format of \<open>x\<close>.\<close>

definition e15_float :: "pyfloat \<Rightarrow> pyfloat" where
  "e15_float x = (case x of Num s m \<Rightarrow> mk_float s (e15_value m) | _ \<Rightarrow> x)"

section \<open>Digits\<close>

lemma digit_char:
  assumes "0 \<le> d" "d < 10"
  shows "is_digit (char_of (48 + d)) \<and> int (digit_val (char_of (48 + d))) = d"
proof -
  have c: "char_of (48 + d) = (char_of (nat (48 + d)) :: char)"
    using assms by (simp add: char_of_def bit_simps)
  have "of_char (char_of (nat (48 + d)) :: char) = nat (48 + d)"
    using assms by (simp add: of_char_of)
  moreover have "48 \<le> nat (48 + d) \<and> nat (48 + d) \<le> 57" using assms by linarith
  ultimately show ?thesis using assms c by (simp add: is_digit_def digit_val_def Let_def)
qed

lemma dec_string_simps:
  "n < 10 \<Longrightarrow> dec_string n = [char_of (48 + n)]"
  "10 \<le> n \<Longrightarrow> dec_string n = dec_string (n div 10) @ [char_of (48 + n mod 10)]"
  by (subst dec_string.simps; simp)+

lemma dec_string_digits: "0 \<le> n \<Longrightarrow> c \<in> set (dec_string n) \<Longrightarrow> is_digit c"
proof (induction n rule: dec_string.induct)
  case (1 n)
  show ?case
  proof (cases "n < 10")
    case True
    then show ?thesis using "1.prems" digit_char [of n] by (simp add: dec_string_simps)
  next
    case False
    then have "c \<in> set (dec_string (n div 10)) \<or> c = char_of (48 + n mod 10)"
      using "1.prems"(2) by (auto simp: dec_string_simps)
    then show ?thesis
      using "1.IH" False "1.prems"(1) digit_char [of "n mod 10"] by auto
  qed
qed

lemma dec_val_snoc: "dec_val (xs @ [c]) = 10 * dec_val xs + int (digit_val c)"
  by (simp add: dec_val_def)

lemma dec_val_dec_string: "0 \<le> n \<Longrightarrow> dec_val (dec_string n) = n"
proof (induction n rule: dec_string.induct)
  case (1 n)
  show ?case
  proof (cases "n < 10")
    case True
    then show ?thesis using "1.prems" digit_char [of n] by (simp add: dec_string_simps dec_val_def)
  next
    case False
    then have "dec_val (dec_string n) = 10 * (n div 10) + n mod 10"
      using "1.IH" "1.prems" digit_char [of "n mod 10"] by (simp add: dec_string_simps dec_val_snoc)
    then show ?thesis by simp
  qed
qed

lemma length_dec_string:
  "10 ^ k \<le> n \<Longrightarrow> n < 10 ^ Suc k \<Longrightarrow> length (dec_string n) = Suc k"
proof (induction k arbitrary: n)
  case 0
  then show ?case by (simp add: dec_string_simps)
next
  case (Suc k)
  have "(1::int) \<le> 10 ^ k" by simp
  moreover have "(10::int) ^ Suc k = 10 * 10 ^ k" by simp
  ultimately have n10: "10 \<le> n" using Suc.prems(1) by linarith
  have "10 ^ k \<le> n div 10" using Suc.prems(1) by (simp add: pos_imp_zdiv_neg_iff zdiv_mono1 [of "10 * 10 ^ k" n 10, simplified])
  moreover have "n div 10 < 10 ^ Suc k"
  proof -
    have "10 * (n div 10) + n mod 10 = n" by (rule mult_div_mod_eq)
    moreover have "0 \<le> n mod 10" by simp
    moreover have "(10::int) ^ Suc (Suc k) = 10 * 10 ^ Suc k" by simp
    ultimately have "10 * (n div 10) < 10 * 10 ^ Suc k" using Suc.prems(2) by linarith
    then show ?thesis by simp
  qed
  ultimately show ?case using Suc.IH n10 by (simp add: dec_string_simps)
qed

section \<open>The sixteen significant digits\<close>

lemma powi10_split: "(10::rat) powi (a + c) = 10 powi a * 10 powi c"
  by (simp add: power_int_add)

lemma sci_digits_cases:
  assumes m: "0 < m"
  defines "d0 \<equiv> floor_log 10 m"
  defines "D0 \<equiv> round_even (m / 10 powi (d0 - 15))"
  shows "10 ^ 15 \<le> D0 \<and> D0 \<le> 10 ^ 16 \<and> \<bar>of_int D0 - m / 10 powi (d0 - 15)\<bar> \<le> 1/2 \<and>
         10 powi d0 \<le> m \<and>
         sci_digits m = (if D0 = 10 ^ 16 then (10 ^ 15, d0 + 1) else (D0, d0))"
proof -
  define q where "q = m / 10 powi (d0 - 15)"
  have b: "10 powi d0 \<le> m" "m < 10 powi (d0 + 1)"
    using floor_log_bounds [of 10 m] m by (simp_all add: d0_def)
  have p: "(10::rat) powi d0 = 10 ^ 15 * 10 powi (d0 - 15)" "(10::rat) powi (d0 + 1) = 10 ^ 16 * 10 powi (d0 - 15)"
    using powi10_split [of 15 "d0 - 15"] powi10_split [of 16 "d0 - 15"] by (simp_all add: add.commute)
  have pos: "(0::rat) < 10 powi (d0 - 15)" by simp
  have q1: "(1000000000000000::rat) \<le> q" "q < 10000000000000000"
    using b p pos by (simp_all add: q_def le_divide_eq divide_less_eq)
  have e: "\<bar>of_int D0 - q\<bar> \<le> 1/2" using round_even_bound by (simp add: D0_def q_def)
  then have e2: "q - 1/2 \<le> of_int D0" "of_int D0 \<le> q + 1/2" unfolding abs_le_iff by linarith+
  have "(999999999999999::rat) < of_int D0" "of_int D0 < (10000000000000001::rat)"
    using q1 e2 by linarith+
  then have "999999999999999 < D0" "D0 < 10000000000000001" by simp_all
  then have "10 ^ 15 \<le> D0" "D0 \<le> 10 ^ 16" by simp_all
  then show ?thesis using e b(1)
    by (simp add: q_def sci_digits_def d0_def D0_def Let_def)
qed

lemma sci_digits_range: "0 < m \<Longrightarrow> sci_digits m = (D, d) \<Longrightarrow> 10 ^ 15 \<le> D \<and> D < 10 ^ 16"
  using sci_digits_cases [of m] by (auto split: if_splits)

lemma e15_value_pos:
  assumes m: "0 < m"
  shows "e15_value m = of_int (round_even (m / 10 powi (floor_log 10 m - 15))) * 10 powi (floor_log 10 m - 15)"
proof -
  define d0 where "d0 = floor_log 10 m"
  define D0 where "D0 = round_even (m / 10 powi (d0 - 15))"
  have c: "sci_digits m = (if D0 = 10 ^ 16 then (10 ^ 15, d0 + 1) else (D0, d0))"
    using sci_digits_cases [OF m] by (simp add: d0_def D0_def)
  have "(10::rat) ^ 15 * 10 powi (d0 + 1 - 15) = 10 ^ 16 * 10 powi (d0 - 15)"
    using powi10_split [of 1 "d0 - 15"] by (simp add: add.commute)
  then show ?thesis using m c by (auto simp: e15_value_def d0_def [symmetric] D0_def [symmetric])
qed

lemma e15_value_error:
  assumes m: "0 < m"
  shows "\<bar>e15_value m - m\<bar> \<le> m / (2 * 10 ^ 15)"
proof -
  define d0 where "d0 = floor_log 10 m"
  define P where "P = (10::rat) powi (d0 - 15)"
  have P: "0 < P" by (simp add: P_def)
  have c: "\<bar>of_int (round_even (m / P)) - m / P\<bar> \<le> 1/2" "10 powi d0 \<le> m"
    using sci_digits_cases [OF m] by (simp_all add: d0_def P_def)
  have "e15_value m - m = (of_int (round_even (m / P)) - m / P) * P"
    using e15_value_pos [OF m] P by (simp add: d0_def [symmetric] P_def [symmetric] algebra_simps)
  then have "\<bar>e15_value m - m\<bar> = \<bar>of_int (round_even (m / P)) - m / P\<bar> * P"
    using P by (simp add: abs_mult)
  also have "\<dots> \<le> 1/2 * P" using c(1) P by (intro mult_right_mono) simp_all
  also have "P = 10 powi d0 / 10 ^ 15"
    using powi10_split [of 15 "d0 - 15"] by (simp add: P_def)
  also have "1/2 * (10 powi d0 / 10 ^ 15) \<le> m / (2 * 10 ^ 15)"
    using c(2) by (simp add: divide_right_mono)
  finally show ?thesis .
qed

section \<open>Reading the digits back\<close>

lemma digit_not_special:
  "is_digit c \<Longrightarrow> c \<noteq> CHR ''_'' \<and> c \<noteq> CHR ''.'' \<and> c \<noteq> CHR ''e'' \<and> c \<noteq> CHR ''E'' \<and>
     c \<noteq> CHR ''-'' \<and> c \<noteq> CHR ''+'' \<and> \<not> float_isspace c"
  by (auto simp: is_digit_def float_isspace_def Let_def)

lemma underscore_scan_id:
  "CHR ''_'' \<notin> set s \<Longrightarrow> p \<noteq> CHR ''_'' \<Longrightarrow> underscore_scan p s = Some s"
  by (induction s arbitrary: p) auto

lemma float_strip_id:
  "t \<noteq> [] \<Longrightarrow> \<not> float_isspace (hd t) \<Longrightarrow> \<not> float_isspace (last t) \<Longrightarrow> float_strip t = t"
proof -
  assume t: "t \<noteq> []" "\<not> float_isspace (hd t)" "\<not> float_isspace (last t)"
  then have "dropWhile float_isspace t = t" by (cases t) simp_all
  moreover have "dropWhile float_isspace (rev t) = rev t"
    using t by (cases "rev t") (simp_all flip: last_rev)
  ultimately show ?thesis by (simp add: float_strip_def)
qed

lemma dec_val_Cons_zero: "dec_val (CHR ''0'' # ds) = dec_val ds"
  by (simp add: dec_val_def digit_val_def)

lemma exp_string_parts:
  "\<exists>ds. exp_string e = (if e < 0 then CHR ''-'' else CHR ''+'') # ds \<and> ds \<noteq> [] \<and>
        (\<forall>c \<in> set ds. is_digit c) \<and> dec_val ds = \<bar>e\<bar>"
proof -
  define ds where "ds = dec_string \<bar>e\<bar>"
  have d: "\<forall>c \<in> set ds. is_digit c" "dec_val ds = \<bar>e\<bar>" "ds \<noteq> []"
    using dec_string_digits [of "\<bar>e\<bar>"] dec_val_dec_string [of "\<bar>e\<bar>"]
    by (auto simp: ds_def dec_string.simps [of "\<bar>e\<bar>"])
  have z: "is_digit (CHR ''0'')" by (simp add: is_digit_def)
  show ?thesis
  proof (cases "length ds < 2")
    case True
    then show ?thesis using d z dec_val_Cons_zero [of ds]
      by (intro exI [of _ "CHR ''0'' # ds"]) (simp add: exp_string_def ds_def [symmetric])
  next
    case False
    then show ?thesis using d by (intro exI [of _ ds]) (simp add: exp_string_def ds_def [symmetric])
  qed
qed

lemma parse_exp_exp_string: "parse_exp (exp_string e) = Some e"
proof -
  obtain ds where ds: "exp_string e = (if e < 0 then CHR ''-'' else CHR ''+'') # ds" "ds \<noteq> []"
    "\<forall>c \<in> set ds. is_digit c" "dec_val ds = \<bar>e\<bar>"
    using exp_string_parts by blast
  then show ?thesis by (simp add: parse_exp_def split_sign_def)
qed

lemma parse_decimal_sci:
  assumes a: "is_digit a" and ds: "\<forall>c \<in> set ds. is_digit c"
  shows "parse_decimal (a # CHR ''.'' # ds @ CHR ''e'' # es) =
           map_option (\<lambda>x. of_int (dec_val (a # ds)) * 10 powi (x - int (length ds))) (parse_exp es)"
proof -
  have nd: "\<not> is_digit (CHR ''.'')" "\<not> is_digit (CHR ''e'')" by (simp_all add: is_digit_def)
  have "takeWhile is_digit (ds @ CHR ''e'' # es) = ds" "dropWhile is_digit (ds @ CHR ''e'' # es) = CHR ''e'' # es"
    using ds nd by (simp_all add: takeWhile_append2 dropWhile_append2)
  then show ?thesis using a nd by (simp add: parse_decimal_def Let_def)
qed

text \<open>The text the format writes for a positive magnitude.\<close>

lemma fmt_e15_pos:
  assumes m: "0 < m" and sd: "sci_digits m = (D, d)"
  shows "\<exists>a ds. dec_string D = a # ds \<and> is_digit a \<and> (\<forall>c \<in> set ds. is_digit c) \<and> length ds = 15 \<and>
           dec_val (a # ds) = D \<and>
           fmt_e15 (Num s m) = (if s then CHR ''-'' else CHR '' '') # a # CHR ''.'' # ds @ CHR ''e'' # exp_string d"
proof -
  have r: "10 ^ 15 \<le> D" "D < 10 ^ 16" using sci_digits_range [OF m sd] by simp_all
  have l: "length (dec_string D) = 16" using length_dec_string [of 15 D] r by simp
  then obtain a ds where e: "dec_string D = a # ds" by (cases "dec_string D") auto
  have "0 \<le> D" using r(1) by simp
  then have "is_digit a" "\<forall>c \<in> set ds. is_digit c" "dec_val (a # ds) = D"
    using dec_string_digits [of D] dec_val_dec_string [of D] e by auto
  then show ?thesis using e l m sd by (simp add: fmt_e15_def)
qed

lemma float_strip_space: "float_isspace c \<Longrightarrow> float_strip (c # t) = float_strip t"
  by (simp add: float_strip_def)

lemma exp_string_chars:
  "CHR ''_'' \<notin> set (exp_string e) \<and> exp_string e \<noteq> [] \<and> is_digit (last (exp_string e))"
proof -
  obtain ds where ds: "exp_string e = (if e < 0 then CHR ''-'' else CHR ''+'') # ds" "ds \<noteq> []"
    "\<forall>c \<in> set ds. is_digit c"
    using exp_string_parts by blast
  then show ?thesis using digit_not_special by (auto simp: last_ConsR)
qed

lemma py_float_fmt_e15_pos:
  assumes m: "0 < m"
  shows "py_float (fmt_e15 (Num s m)) = Inr (mk_float s (e15_value m))"
proof -
  obtain D d where sd: "sci_digits m = (D, d)" by (cases "sci_digits m")
  then obtain a ds where f: "dec_string D = a # ds" "is_digit a" "\<forall>c \<in> set ds. is_digit c"
      "length ds = 15" "dec_val (a # ds) = D"
    and str: "fmt_e15 (Num s m) = (if s then CHR ''-'' else CHR '' '') # a # CHR ''.'' # ds @ CHR ''e'' # exp_string d"
    using fmt_e15_pos [OF m] by blast
  define body where "body = a # CHR ''.'' # ds @ CHR ''e'' # exp_string d"
  have ex: "CHR ''_'' \<notin> set (exp_string d)" "exp_string d \<noteq> []" "is_digit (last (exp_string d))"
    using exp_string_chars by blast+
  have nu: "CHR ''_'' \<notin> set body" using f(2,3) ex(1) digit_not_special by (auto simp: body_def)
  have lb: "\<not> float_isspace (last body)" using ex(2,3) digit_not_special by (simp add: body_def)
  have hb: "\<not> float_isspace (hd body)" using f(2) digit_not_special by (simp add: body_def)
  have sp: "float_isspace (CHR '' '')" "\<not> float_isspace (CHR ''-'')" by (simp_all add: float_isspace_def)
  have strip: "float_strip (fmt_e15 (Num s m)) = (if s then CHR ''-'' # body else body)"
    using str lb hb sp float_strip_id [of body] float_strip_id [of "CHR ''-'' # body"] float_strip_space
    by (simp add: body_def [symmetric]) (simp add: body_def)
  have under: "remove_underscores (fmt_e15 (Num s m)) = Some (fmt_e15 (Num s m))"
    unfolding remove_underscores_def using nu str by (intro underscore_scan_id) (auto simp: body_def [symmetric])
  have sign: "split_sign (if s then CHR ''-'' # body else body) = (s, body)"
    using f(2) digit_not_special by (simp add: split_sign_def body_def)
  have dec: "parse_decimal body = Some (of_int D * 10 powi (d - 15))"
    using parse_decimal_sci [OF f(2,3), of "exp_string d"] f(4,5) by (simp add: body_def parse_exp_exp_string)
  have val: "e15_value m = of_int D * 10 powi (d - 15)" using m sd by (simp add: e15_value_def)
  have nb: "body \<noteq> []" by (simp add: body_def)
  show ?thesis
    using under strip sign dec val nb by (cases s) (simp_all add: py_float_def parse_literal_def)
qed

lemma py_float_fmt_e15_zero: "py_float (fmt_e15 (Num s 0)) = Inr (Num s 0)"
proof (cases s)
  case True
  have "py_float (fmt_e15 (Num True 0)) = Inr (Num True 0)" by code_simp
  then show ?thesis using True by simp
next
  case False
  have "py_float (fmt_e15 (Num False 0)) = Inr (Num False 0)" by code_simp
  then show ?thesis using False by simp
qed

lemma py_float_fmt_e15_inf: "py_float (fmt_e15 (Infinity s)) = Inr (Infinity s)"
proof (cases s)
  case True
  have "py_float (fmt_e15 (Infinity True)) = Inr (Infinity True)" by code_simp
  then show ?thesis using True by simp
next
  case False
  have "py_float (fmt_e15 (Infinity False)) = Inr (Infinity False)" by code_simp
  then show ?thesis using False by simp
qed

lemma py_float_fmt_e15_nan: "py_float (fmt_e15 NaN) = Inr NaN"
  by code_simp

text \<open>\<^verbatim>\<open>float\<close> reads back what \<^verbatim>\<open>"{: .15e}".format\<close> writes: the
  16-digit decimal rounded to binary64; infinities, NaN and signed zeros
  come back as themselves.\<close>

lemma py_float_fmt_e15:
  assumes "wf_float x"
  shows "py_float (fmt_e15 x) = Inr (e15_float x)"
proof (cases x)
  case (Num s m)
  show ?thesis
  proof (cases "m = 0")
    case True
    then show ?thesis
      using Num py_float_fmt_e15_zero by (simp add: e15_float_def mk_float_def e15_value_def b64_overflow_def)
  next
    case False
    then have "0 < m" using assms Num by simp
    then show ?thesis using Num by (simp add: py_float_fmt_e15_pos e15_float_def)
  qed
next
  case (Infinity s)
  then show ?thesis using py_float_fmt_e15_inf by (simp add: e15_float_def)
qed (simp add: py_float_fmt_e15_nan e15_float_def)

section \<open>The format as a token\<close>

text \<open>The characters the format writes.\<close>

lemma fmt_e15_chars:
  assumes "wf_float x"
  shows "\<exists>c w. fmt_e15 x = c # w \<and> (c = CHR '' '' \<or> c = CHR ''-'') \<and> w \<noteq> [] \<and>
           (\<forall>ch \<in> set w. is_digit ch \<or> ch \<in> set ''.e+-infa'')"
proof (cases x)
  case (Num s m)
  show ?thesis
  proof (cases "m = 0")
    case True
    have "\<forall>ch \<in> set ''0.000000000000000e+00''. is_digit ch \<or> ch \<in> set ''.e+-infa''"
      by (simp add: is_digit_def)
    then show ?thesis using Num True by (simp add: fmt_e15_def)
  next
    case False
    then have m: "0 < m" using assms Num by simp
    obtain D d where sd: "sci_digits m = (D, d)" by (cases "sci_digits m")
    obtain a ds where f: "is_digit a" "\<forall>c \<in> set ds. is_digit c"
      "fmt_e15 (Num s m) = (if s then CHR ''-'' else CHR '' '') # a # CHR ''.'' # ds @ CHR ''e'' # exp_string d"
      using fmt_e15_pos [OF m sd] by blast
    obtain es where "exp_string d = (if d < 0 then CHR ''-'' else CHR ''+'') # es" "\<forall>c \<in> set es. is_digit c"
      using exp_string_parts by blast
    then show ?thesis using f Num by auto
  qed
qed (auto simp: fmt_e15_def)

lemma fmt_char_props:
  "is_digit ch \<or> ch \<in> set ''.e+-infa'' \<Longrightarrow>
     \<not> py_isspace ch \<and> ch \<noteq> CHR ''='' \<and> ch \<noteq> CHR '','' \<and> ch \<noteq> CHR ''_''"
  by (auto simp: is_digit_def py_isspace_def Let_def)

lemma underscore_scan_prev:
  "\<not> is_digit p \<Longrightarrow> p \<noteq> CHR ''_'' \<Longrightarrow> \<not> is_digit p' \<Longrightarrow> p' \<noteq> CHR ''_'' \<Longrightarrow>
   underscore_scan p w = underscore_scan p' w"
  by (cases w) auto

lemma py_float_Cons_space: "py_float (CHR '' '' # w) = Inr y \<longleftrightarrow> py_float w = Inr y"
proof -
  have "underscore_scan (CHR '' '') w = underscore_scan (CHR 0x00) w"
    by (rule underscore_scan_prev) (simp_all add: is_digit_def)
  then have "remove_underscores (CHR '' '' # w) = map_option (Cons (CHR '' '')) (remove_underscores w)"
    by (simp add: remove_underscores_def is_digit_def)
  moreover have "float_isspace (CHR '' '')" by (simp add: float_isspace_def)
  ultimately show ?thesis
    by (auto simp: py_float_def float_strip_space Let_def split: option.splits)
qed

text \<open>\<^verbatim>\<open>split()\<close> finds the format of a float as one token, which the token
  parser of \<open>Rescale\<close> reads back as \<open>e15_float\<close>.\<close>

lemma fmt_e15_token:
  assumes "wf_float x"
  shows "\<exists>w. split_ws (fmt_e15 x) = [w] \<and> py_float w = Inr (e15_float x) \<and>
             w \<noteq> [] \<and> last w \<noteq> CHR '','' \<and> CHR ''='' \<notin> set (fmt_e15 x)"
proof -
  obtain c w where f: "fmt_e15 x = c # w" "c = CHR '' '' \<or> c = CHR ''-''" "w \<noteq> []"
    "\<forall>ch \<in> set w. is_digit ch \<or> ch \<in> set ''.e+-infa''"
    using fmt_e15_chars [OF assms] by blast
  have ch: "\<forall>ch \<in> set w. \<not> py_isspace ch \<and> ch \<noteq> CHR ''='' \<and> ch \<noteq> CHR '',''"
    using f(4) fmt_char_props by blast
  have rt: "py_float (fmt_e15 x) = Inr (e15_float x)"
    using py_float_fmt_e15 [OF assms] .
  show ?thesis
  proof (cases "c = CHR '' ''")
    case True
    then show ?thesis using f(1,3) ch rt py_float_Cons_space [of w]
      by (auto simp: split_ws_Cons_space split_ws_word)
  next
    case False
    then have c: "c = CHR ''-''" using f(2) by simp
    then have "split_ws (c # w) = [c # w]" using ch by (intro split_ws_word) (auto simp: py_isspace_def)
    then show ?thesis using f(1,3) ch rt c by auto
  qed
qed

lemma e15_float_close:
  assumes m: "2 powi -1022 \<le> m" and p: "e15_float (Num s m) = Num t r"
  shows "t = s \<and> \<bar>r - m\<bar> \<le> m / 10 ^ 15"
proof -
  have m0: "0 < m" using m by (rule less_le_trans [rotated]) simp
  define q where "q = e15_value m"
  have mk: "mk_float s q = Num t r" using p by (simp add: q_def e15_float_def)
  then have tr: "t = s" "r = round_b64 q" by (auto simp: mk_float_def Let_def split: if_splits)
  have eq: "\<bar>q - m\<bar> \<le> m / (2 * 10 ^ 15)" using e15_value_error [OF m0] by (simp add: q_def)
  have "m / (2 * 10 ^ 15) \<le> m" using m0 by simp
  then have q0: "0 \<le> q" "q \<le> 2 * m" using eq unfolding abs_le_iff by linarith+
  have er: "\<bar>r - q\<bar> \<le> max (q * 2 powi -53) (2 powi -1075)"
    using round_b64_rel_error [OF q0(1)] tr(2) by simp
  have a1: "q * 2 powi -53 \<le> 2 * m * 2 powi -53" using q0(2) by (intro mult_right_mono) simp_all
  have "(2::rat) powi -1075 = 2 powi -1022 * 2 powi -53" by (simp add: powi_two_mult)
  also have "\<dots> \<le> 2 * m * 2 powi -53" using m m0 by (intro mult_right_mono) simp_all
  finally have a2: "(2::rat) powi -1075 \<le> 2 * m * 2 powi -53" .
  have "\<bar>r - q\<bar> \<le> 2 * m * 2 powi -53" using er max.boundedI [OF a1 a2] by (rule order_trans)
  then have "\<bar>r - m\<bar> \<le> m / (2 * 10 ^ 15) + 2 * m * 2 powi -53"
    using eq unfolding abs_le_iff by linarith
  also have "\<dots> \<le> m / 10 ^ 15" using m0 by (simp add: field_simps)
  finally show ?thesis using tr(1) by simp
qed

end
