(* ===== verification/Reread.thy ===== *)
theory Reread
  imports Rescale FormatParse
begin

text \<open>
  What the rescaling routines of \<open>Rescale\<close> read from a line they wrote
  themselves, as happens when an output file is rescaled again (the spec's
  round-trip law). A line written by \<open>format_values\<close> splits into one token
  per value, and the token parser reads each back as \<open>e15_float\<close>, its
  16-digit decimal rounded to binary64 (\<open>FormatParse\<close>). Rescaling a line
  twice therefore multiplies the re-read values by the second factor; the
  key written by \<^verbatim>\<open>rescale_arrayline\<close> gains one space before \<^verbatim>\<open>=\<close> on each
  pass.
\<close>

section \<open>Lemmas\<close>

lemma parse_token_fmt:
  "wf_float x \<Longrightarrow> \<exists>w. split_ws (fmt_e15 x) = [w] \<and> parse_token w = Inr (e15_float x)"
  using fmt_e15_token [of x] by (auto simp: parse_token_def py_last_def)

lemma parse_values_format_values:
  "(\<forall>x \<in> set xs. wf_float x) \<Longrightarrow> parse_values (split_ws (format_values xs)) = Inr (map e15_float xs)"
proof (induction xs)
  case Nil
  then show ?case by (simp add: format_values_def parse_values_def split_ws_def)
next
  case (Cons x xs)
  obtain w where w: "split_ws (fmt_e15 x) = [w]" "parse_token w = Inr (e15_float x)"
    using parse_token_fmt Cons.prems by auto
  have "split_ws (format_values (x # xs)) = w # split_ws (format_values xs)"
    using w(1) by (simp add: format_values_def split_ws_py_join_space)
  then show ?case using Cons w(2) by (simp add: parse_values_def)
qed

lemma set_py_join: "c \<in> set (py_join sep xs) \<Longrightarrow> c \<in> set sep \<or> (\<exists>x \<in> set xs. c \<in> set x)"
  by (induction sep xs rule: py_join.induct) auto

lemma eq_notin_format_values: "(\<forall>x \<in> set xs. wf_float x) \<Longrightarrow> CHR ''='' \<notin> set (format_values xs)"
  using fmt_e15_token set_py_join [of "CHR ''=''" "'' ''" "map fmt_e15 xs"]
  by (fastforce simp: format_values_def)

lemma keep_newline_Inr:
  "keep_newline l nl = Inr nl' \<Longrightarrow> nl' = nl \<or> nl' = nl @ ''\<newline>''"
  by (auto simp: keep_newline_def py_last_def split: if_splits)

lemma split_ws_keep_newline:
  "keep_newline l nl = Inr nl' \<Longrightarrow> split_ws nl' = split_ws nl"
  using keep_newline_Inr [of l nl nl'] split_ws_snoc_space [of "CHR ''\<newline>''" nl]
  by (auto simp: py_isspace_def)

lemma scale_values_wf:
  "wf_float s \<Longrightarrow> (\<forall>v \<in> set vs. wf_float v) \<Longrightarrow> \<forall>x \<in> set (scale_values vs s). wf_float x"
  by (auto simp: scale_values_def intro: fmul_wf)

lemma split_sep_at: "c \<notin> set a \<Longrightarrow> split_sep c (a @ c # b) = a # split_sep c b"
  by (induction a) (auto simp: Let_def)

text \<open>One pass on one value: multiply, print, read back. In the normal range
  the value read is within \<open>3 \<cdot> 10^-15\<close> of the exact product.\<close>

lemma rescale_step_close:
  assumes m: "0 \<le> m" and n: "0 \<le> n" and mn: "2 powi -1021 \<le> m * n"
    and e: "e15_float (fmul (Num a m) (Num b n)) = Num d r"
  shows "\<bar>r - m * n\<bar> \<le> m * n * 3 / 10 ^ 15"
proof -
  obtain r1 where f: "fmul (Num a m) (Num b n) = Num (a \<noteq> b) r1"
    using e by (cases "b64_overflow (round_b64 (m * n))") (auto simp: mk_float_def Let_def e15_float_def)
  have h: "(2::rat) powi -1022 \<le> 2 powi -1021" by simp
  have e1: "\<bar>r1 - m * n\<bar> \<le> m * n * 2 powi -53"
    using fmul_close_normal [OF m n order_trans [OF h mn] f] .
  have x0: "0 \<le> m * n" using m n by simp
  have half: "m * n * 2 powi -53 \<le> m * n / 2" using x0 by simp
  have "(2::rat) powi -1021 / 2 = 2 powi -1022" by simp
  then have r1: "2 powi -1022 \<le> r1" using e1 half mn unfolding abs_le_iff by linarith
  have e2: "\<bar>r - r1\<bar> \<le> r1 / 10 ^ 15" using e15_float_close [OF r1] e f by simp
  have "r1 \<le> 2 * (m * n)" using e1 half unfolding abs_le_iff by linarith
  then have "r1 / 10 ^ 15 \<le> 2 * (m * n) / 10 ^ 15" by (simp add: divide_right_mono)
  moreover have "m * n * 2 powi -53 \<le> m * n / 10 ^ 15" using x0 by (simp add: field_simps)
  ultimately show ?thesis using e1 e2 unfolding abs_le_iff by (simp add: field_simps)
qed

lemma mk_float_no_overflow:
  assumes x: "0 \<le> x" and b: "x \<le> 2 powi 1022"
  shows "mk_float s x = Num s (round_b64 x)"
proof -
  have e: "\<bar>round_b64 x - x\<bar> \<le> max (x * 2 powi -53) (2 powi -1075)"
    using round_b64_rel_error [OF x] .
  have "x * 2 powi -53 \<le> x" using x by (simp add: mult_left_le)
  then have "max (x * 2 powi -53) (2 powi -1075) \<le> (2::rat) powi 1022" using b by simp
  then have "round_b64 x \<le> 2 powi 1022 + 2 powi 1022" using e b unfolding abs_le_iff by linarith
  then have "round_b64 x < 2 powi 1024" by simp
  then show ?thesis using b64_overflow_iff [OF round_b64_nonneg [OF x]]
    by (simp add: mk_float_def Let_def)
qed

lemma e15_float_no_overflow:
  assumes m: "0 \<le> m" and b: "m \<le> 2 powi 1021"
  shows "\<exists>r. e15_float (Num s m) = Num s r"
proof (cases "m = 0")
  case True
  then show ?thesis by (simp add: e15_float_def e15_value_def mk_float_no_overflow)
next
  case False
  then have m0: "0 < m" using m by simp
  have "\<bar>e15_value m - m\<bar> \<le> m / (2 * 10 ^ 15)" using e15_value_error [OF m0] .
  moreover have "m / (2 * 10 ^ 15) \<le> m" using m0 by simp
  moreover have "2 * m \<le> (2::rat) powi 1022" using b by simp
  ultimately have "0 \<le> e15_value m" "e15_value m \<le> 2 powi 1022"
    unfolding abs_le_iff by linarith+
  then show ?thesis by (simp add: e15_float_def mk_float_no_overflow)
qed

text \<open>One pass on a value in the normal range and far from the overflow
  bound gives a finite value.\<close>

lemma rescale_step_finite:
  assumes m: "0 \<le> m" and n: "0 \<le> n" and lo: "2 powi -1022 \<le> m * n" and hi: "m * n \<le> 2 powi 1020"
  shows "\<exists>r. e15_float (fmul (Num a m) (Num b n)) = Num (a \<noteq> b) r"
proof -
  have x0: "0 \<le> m * n" using m n by simp
  have f: "fmul (Num a m) (Num b n) = Num (a \<noteq> b) (round_b64 (m * n))"
    using mk_float_no_overflow [OF x0] hi by simp
  have "\<bar>round_b64 (m * n) - m * n\<bar> \<le> m * n * 2 powi -53"
    using fmul_close_normal [OF m n lo f] .
  moreover have "m * n * 2 powi -53 \<le> m * n" using x0 by (simp add: mult_left_le)
  moreover have "2 * (m * n) \<le> (2::rat) powi 1021" using hi by simp
  ultimately have "0 \<le> round_b64 (m * n)" "round_b64 (m * n) \<le> 2 powi 1021"
    unfolding abs_le_iff by linarith+
  then show ?thesis using f e15_float_no_overflow by simp
qed

text \<open>Two passes: the value read back after the second pass is finite and
  within \<open>10^-14\<close> of the exact product.\<close>

lemma rescale_twice_close:
  assumes m: "0 \<le> m" and n: "0 \<le> n" and k: "0 \<le> k"
    and mn: "2 powi -1020 \<le> m * n" and mnk: "2 powi -1020 \<le> m * n * k"
    and hn: "m * n \<le> 2 powi 1019" and hnk: "m * n * k \<le> 2 powi 1019"
  shows "\<exists>d r. e15_float (fmul (e15_float (fmul (Num a m) (Num b n))) (Num c k)) = Num d r \<and>
           \<bar>r - m * n * k\<bar> \<le> m * n * k / 10 ^ 14"
proof -
  have "(2::rat) powi -1022 \<le> 2 powi -1020" "(2::rat) powi 1019 \<le> 2 powi 1020" by simp_all
  then obtain r2 where e1: "e15_float (fmul (Num a m) (Num b n)) = Num (a \<noteq> b) r2"
    using rescale_step_finite [OF m n] mn hn by (meson order_trans)
  have h: "(2::rat) powi -1021 \<le> 2 powi -1020" by simp
  have c1: "\<bar>r2 - m * n\<bar> \<le> m * n * 3 / 10 ^ 15"
    using rescale_step_close [OF m n order_trans [OF h mn] e1] .
  have x0: "0 \<le> m * n" using m n by simp
  have "m * n * 3 / 10 ^ 15 \<le> m * n / 2" using x0 by simp
  then have lo: "m * n / 2 \<le> r2" and hi: "r2 \<le> 2 * (m * n)" using c1 x0 unfolding abs_le_iff by linarith+
  have r20: "0 \<le> r2" using lo x0 by linarith
  have "m * n / 2 * k \<le> r2 * k" using lo k by (rule mult_right_mono)
  moreover have "(2::rat) powi -1020 / 2 = 2 powi -1021" by simp
  ultimately have r2k: "2 powi -1021 \<le> r2 * k" using mnk by (simp add: field_simps)
  have r2k': "r2 * k \<le> 2 * (m * n) * k" using hi k by (rule mult_right_mono)
  have "(2::rat) * 2 powi 1019 = 2 powi 1020" by simp
  then have "2 * (m * n * k) \<le> (2::rat) powi 1020" using hnk by linarith
  moreover have "2 * (m * n) * k = 2 * (m * n * k)" by (simp add: mult.assoc)
  ultimately have "r2 * k \<le> 2 powi 1020" using r2k' by linarith
  moreover have "(2::rat) powi -1022 \<le> 2 powi -1021" by simp
  ultimately obtain r where e2: "e15_float (fmul (Num (a \<noteq> b) r2) (Num c k)) = Num ((a \<noteq> b) \<noteq> c) r"
    using rescale_step_finite [OF r20 k] r2k by (meson order_trans)
  have c2: "\<bar>r - r2 * k\<bar> \<le> r2 * k * 3 / 10 ^ 15"
    using rescale_step_close [OF r20 k r2k e2] .
  then have c2': "\<bar>r - r2 * k\<bar> \<le> m * n * k * 6 / 10 ^ 15" using r2k' by (simp add: field_simps)
  have "r2 * k - m * n * k = (r2 - m * n) * k" by (simp add: algebra_simps)
  then have "\<bar>r2 * k - m * n * k\<bar> = \<bar>r2 - m * n\<bar> * k" using k by (simp add: abs_mult)
  also have "\<dots> \<le> m * n * 3 / 10 ^ 15 * k" using c1 k by (rule mult_right_mono)
  finally have c3: "\<bar>r2 * k - m * n * k\<bar> \<le> m * n * k * 3 / 10 ^ 15" by simp
  have "0 \<le> m * n * k" using x0 k by simp
  then have "\<bar>r - m * n * k\<bar> \<le> m * n * k / 10 ^ 14" using c2' c3 unfolding abs_le_iff by (simp add: field_simps)
  then show ?thesis using e1 e2 by simp
qed

lemma followup_output_values:
  assumes s: "wf_float s" and r: "rescale_followup l s = Inr nl"
  shows "\<exists>vs. parse_values (split_ws l) = Inr vs \<and> (\<forall>v \<in> set vs. wf_float v) \<and>
           parse_values (split_ws nl) = Inr (map e15_float (scale_values vs s))"
proof -
  obtain vs where vs: "parse_values (split_ws l) = Inr vs"
    and k: "keep_newline l (format_values (scale_values vs s)) = Inr nl"
    using r by (auto simp: rescale_followup_def rbind_eq_Inr)
  have w: "\<forall>v \<in> set vs. wf_float v" using parse_values_wf [OF vs] by blast
  then have "\<forall>x \<in> set (scale_values vs s). wf_float x" using scale_values_wf [OF s] by blast
  then show ?thesis using vs w split_ws_keep_newline [OF k] parse_values_format_values by simp
qed

section \<open>Properties\<close>

text \<open>C13: a continuation line written by \<^verbatim>\<open>rescale_followup\<close> and rescaled
  again is read back value for value: the second pass multiplies by its
  factor the products of the first pass as \<^verbatim>\<open>float\<close> reads them from the
  15-digit format.\<close>

theorem followup_rescale_twice:
  assumes s: "wf_float s" and r: "rescale_followup l s = Inr nl"
  shows "\<exists>vs. parse_values (split_ws l) = Inr vs \<and>
           rescale_followup nl t =
             keep_newline nl (format_values (scale_values (map e15_float (scale_values vs s)) t))"
proof -
  obtain vs where vs: "parse_values (split_ws l) = Inr vs"
    and k: "keep_newline l (format_values (scale_values vs s)) = Inr nl"
    using r by (auto simp: rescale_followup_def rbind_eq_Inr)
  have "\<forall>x \<in> set (scale_values vs s). wf_float x"
    using scale_values_wf [OF s] parse_values_wf [OF vs] by blast
  then have "parse_values (split_ws nl) = Inr (map e15_float (scale_values vs s))"
    using split_ws_keep_newline [OF k] parse_values_format_values by simp
  then show ?thesis using vs by (simp add: rescale_followup_def)
qed

theorem followup_rescale_twice_witness:
  "parse_values (split_ws ''  1.0 2.0\<newline>'') = Inr [Num False 1, Num False 2] \<and>
   rescale_followup '' 2.000000000000000e+00  4.000000000000000e+00\<newline>'' (Num False (1/2)) =
     keep_newline '' 2.000000000000000e+00  4.000000000000000e+00\<newline>''
       (format_values (scale_values (map e15_float (scale_values [Num False 1, Num False 2] (Num False 2))) (Num False (1/2))))"
proof -
  have p: "parse_values (split_ws ''  1.0 2.0\<newline>'') = Inr [Num False 1, Num False 2]" by code_simp
  have r: "rescale_followup ''  1.0 2.0\<newline>'' (Num False 2) = Inr '' 2.000000000000000e+00  4.000000000000000e+00\<newline>''"
    by code_simp
  have w: "wf_float (Num False 2)" using wf_float_int [of 2 False] by simp
  show ?thesis using followup_rescale_twice [OF w r, of "Num False (1/2)"] p by auto
qed

text \<open>C14: the same for \<^verbatim>\<open>rescale_arrayline\<close>: rescaling its output reads
  back the values of the first pass, and the key, which keeps the space
  that preceded the \<^verbatim>\<open>=\<close>, grows by one space on every pass.\<close>

theorem arrayline_rescale_twice:
  assumes s: "wf_float s" and r: "rescale_arrayline l s = Inr nl"
  shows "\<exists>vs. arrayline_values l = Inr vs \<and>
           rescale_arrayline nl t =
             keep_newline nl (hd (split_sep (CHR ''='') l) @ '' '' @ '' = '' @
               format_values (scale_values (map e15_float (scale_values vs s)) t))"
proof -
  define key where "key = hd (split_sep (CHR ''='') l)"
  obtain vs where vs: "arrayline_values l = Inr vs"
    and k: "keep_newline l (key @ '' = '' @ format_values (scale_values vs s)) = Inr nl"
    using r by (auto simp: rescale_arrayline_def rbind_eq_Inr key_def Let_def)
  have pv: "parse_values (split_ws v) = Inr vs" if "py_nth (split_sep (CHR ''='') l) 1 = Inr v" for v
    using vs that by (simp add: arrayline_values_def)
  obtain v where "py_nth (split_sep (CHR ''='') l) 1 = Inr v"
    using vs by (auto simp: arrayline_values_def rbind_eq_Inr)
  then have "\<forall>x \<in> set vs. wf_float x" using parse_values_wf pv by blast
  then have wf: "\<forall>x \<in> set (scale_values vs s). wf_float x" using scale_values_wf [OF s] by blast
  define F where "F = format_values (scale_values vs s)"
  have nk: "CHR ''='' \<notin> set key"
  proof -
    have "key \<in> set (split_sep (CHR ''='') l)"
      unfolding key_def using split_sep_not_Nil [of "CHR ''=''" l] by (rule hd_in_set)
    then show ?thesis by (rule split_sep_no_sep)
  qed
  have nF: "CHR ''='' \<notin> set F" using eq_notin_format_values [OF wf] by (simp add: F_def)
  obtain e where e: "nl = key @ '' = '' @ F @ e" "e = [] \<or> e = ''\<newline>''"
    using keep_newline_Inr [OF k] by (auto simp: F_def)
  have ne: "CHR ''='' \<notin> set e" using e(2) by auto
  have sp: "split_sep (CHR ''='') nl = [key @ '' '', '' '' @ F @ e]"
    using nk nF ne split_sep_at [of "CHR ''=''" "key @ '' ''" "'' '' @ F @ e"]
    by (simp add: e(1) split_sep_no_occurrence)
  have "split_ws ('' '' @ F @ e) = split_ws F"
    using e(2) split_ws_snoc_space [of "CHR ''\<newline>''" "'' '' @ F"]
    by (auto simp: split_ws_Cons_space py_isspace_def)
  then have "arrayline_values nl = Inr (map e15_float (scale_values vs s))"
    using sp parse_values_format_values [OF wf] by (simp add: arrayline_values_def py_nth_def F_def)
  then show ?thesis using vs sp by (simp add: rescale_arrayline_def key_def Let_def)
qed

theorem arrayline_rescale_twice_witness:
  "arrayline_values ''RAXIS = 1.0 2.0\<newline>'' = Inr [Num False 1, Num False 2] \<and>
   rescale_arrayline ''RAXIS  =  2.000000000000000e+00  4.000000000000000e+00\<newline>'' (Num False (1/2)) =
     keep_newline ''RAXIS  =  2.000000000000000e+00  4.000000000000000e+00\<newline>''
       (hd (split_sep (CHR ''='') ''RAXIS = 1.0 2.0\<newline>'') @ '' '' @ '' = '' @
        format_values (scale_values (map e15_float (scale_values [Num False 1, Num False 2] (Num False 2))) (Num False (1/2))))"
proof -
  have p: "arrayline_values ''RAXIS = 1.0 2.0\<newline>'' = Inr [Num False 1, Num False 2]" by code_simp
  have r: "rescale_arrayline ''RAXIS = 1.0 2.0\<newline>'' (Num False 2) =
             Inr ''RAXIS  =  2.000000000000000e+00  4.000000000000000e+00\<newline>''" by code_simp
  have w: "wf_float (Num False 2)" using wf_float_int [of 2 False] by simp
  show ?thesis using arrayline_rescale_twice [OF w r, of "Num False (1/2)"] p by auto
qed

text \<open>C18: the spec's round-trip law at the level of the routine: a
  continuation line rescaled by \<^verbatim>\<open>rescale_followup\<close> with factor \<open>n\<close>, and
  its output rescaled again with factor \<open>k\<close>, reads back value for value,
  each value within a relative \<open>10^-14\<close> of the exact \<open>m \<cdot> n \<cdot> k\<close> of the
  value \<open>m\<close> of the input, when the products stay in binary64's normal
  range (\<open>2^-1020\<close> to \<open>2^1000\<close>).\<close>

theorem followup_twice_close:
  assumes s: "wf_float (Num b n)" and t: "wf_float (Num c k)"
    and r1: "rescale_followup l (Num b n) = Inr l1" and r2: "rescale_followup l1 (Num c k) = Inr l2"
    and p: "parse_values (split_ws l) = Inr vs" and i: "i < length vs" and v: "vs ! i = Num a m"
    and lo: "2 powi -1020 \<le> m * n" "2 powi -1020 \<le> m * n * k"
    and hi: "m * n \<le> 2 powi 1000" "m * n * k \<le> 2 powi 1000"
  shows "\<exists>ws d r. parse_values (split_ws l2) = Inr ws \<and> length ws = length vs \<and>
           ws ! i = Num d r \<and> \<bar>r - m * n * k\<bar> \<le> m * n * k / 10 ^ 14"
proof -
  obtain vs1 where p1: "parse_values (split_ws l) = Inr vs1" and w1: "\<forall>v \<in> set vs1. wf_float v"
    and q1: "parse_values (split_ws l1) = Inr (map e15_float (scale_values vs1 (Num b n)))"
    using followup_output_values [OF s r1] by blast
  have vs1: "vs1 = vs" using p p1 by simp
  obtain ws where q2: "parse_values (split_ws l1) = Inr ws"
    and q3: "parse_values (split_ws l2) = Inr (map e15_float (scale_values ws (Num c k)))"
    using followup_output_values [OF t r2] by blast
  have ws: "ws = map e15_float (scale_values vs (Num b n))" using q1 q2 vs1 by simp
  have m: "0 \<le> m" using w1 vs1 i v nth_mem [OF i] by fastforce
  have n: "0 \<le> n" and k: "0 \<le> k" using s t by simp_all
  have "(2::rat) powi 1000 \<le> 2 powi 1019" by simp
  then obtain d r where e: "e15_float (fmul (e15_float (fmul (Num a m) (Num b n))) (Num c k)) = Num d r"
    and c: "\<bar>r - m * n * k\<bar> \<le> m * n * k / 10 ^ 14"
    using rescale_twice_close [OF m n k lo] hi by (meson order_trans)
  have "map e15_float (scale_values ws (Num c k)) ! i = Num d r"
    using e i v by (simp add: ws scale_values_def)
  then show ?thesis using q3 c i by (auto simp: ws scale_values_def)
qed

theorem followup_twice_close_witness:
  "rescale_followup ''  0.1\<newline>'' (Num False 3) = Inr '' 3.000000000000000e-01\<newline>'' \<and>
   rescale_followup '' 3.000000000000000e-01\<newline>'' (Num False (1/2)) = Inr '' 1.500000000000000e-01\<newline>'' \<and>
   (\<exists>ws d r. parse_values (split_ws '' 1.500000000000000e-01\<newline>'') = Inr ws \<and> length ws = 1 \<and>
      ws ! 0 = Num d r \<and> \<bar>r - (3602879701896397 / 36028797018963968) * 3 * (1/2)\<bar> \<le> (3602879701896397 / 36028797018963968) * 3 * (1/2) / 10 ^ 14)"
proof -
  have p: "parse_values (split_ws ''  0.1\<newline>'') = Inr [Num False (3602879701896397 / 36028797018963968)]" by code_simp
  have r1: "rescale_followup ''  0.1\<newline>'' (Num False 3) = Inr '' 3.000000000000000e-01\<newline>''" by code_simp
  have r2: "rescale_followup '' 3.000000000000000e-01\<newline>'' (Num False (1/2)) = Inr '' 1.500000000000000e-01\<newline>''"
    by code_simp
  have s: "wf_float (Num False 3)" using wf_float_int [of 3 False] by simp
  have t: "wf_float (Num False (1/2))" by code_simp
  have b: "(2::rat) powi -1020 \<le> (3602879701896397 / 36028797018963968) * 3" "(2::rat) powi -1020 \<le> (3602879701896397 / 36028797018963968) * 3 * (1/2)"
    "(3602879701896397 / 36028797018963968) * 3 \<le> (2::rat) powi 1000" "(3602879701896397 / 36028797018963968) * 3 * (1/2) \<le> (2::rat) powi 1000" by simp_all
  show ?thesis using followup_twice_close [OF s t r1 r2 p, of 0 False "3602879701896397 / 36028797018963968"] b r1 r2 by simp
qed

end
