(* ===== verification/Spec2Isabelle.thy ===== *)
theory Spec2Isabelle
  imports Driver Reread
begin

text \<open>
  \<^bold>\<open>A verification model of \<^verbatim>\<open>src/scale_vmec.py\<close>.\<close>

  \<^bold>\<open>The program.\<close> \<^verbatim>\<open>scale_vmec.py\<close> rescales a VMEC input namelist. It reads
  the input file's lines, and \<^verbatim>\<open>my_patch\<close> walks them once, carrying one
  variable, \<^verbatim>\<open>scale\<close>, from line to line. Each line loses its inline comment
  (after the first \<^verbatim>\<open>!\<close>), is stripped and lower-cased, and is classified:
  an empty line or a group marker (\<^verbatim>\<open>&\<close>, \<^verbatim>\<open>/\<close>) passes through; a line
  with \<^verbatim>\<open>=\<close> is a field assignment, rescaled when its name starts with one
  of the prefixes of the \<^verbatim>\<open>elif\<close> chain (lines 95--134) and passed through
  otherwise, and it binds \<^verbatim>\<open>scale\<close>; any other line continues the last
  assignment and is rescaled with \<^verbatim>\<open>scale\<close>. The rescaling routines
  (\<^verbatim>\<open>rescale_followup\<close>, \<^verbatim>\<open>rescale_multiarrayline\<close>, \<^verbatim>\<open>rescale_arrayline\<close>)
  parse the values with \<^verbatim>\<open>float\<close>, multiply them with numpy and print them
  with \<^verbatim>\<open>"{: .15e}"\<close>. \<^verbatim>\<open>scale_vmec\<close> writes the result, and the
  \<^verbatim>\<open>__main__\<close> block reads the command line.

  \<^bold>\<open>The library.\<close>
  \<^item> \<open>Prelude\<close>: Python exceptions as the datatype \<open>py_error\<close>, results
    \<open>py_error + 'a\<close>, the sequencing combinator \<open>rbind\<close> and the loop
    combinator \<open>mapR\<close>, with their rewrite rules (collection \<open>result_simps\<close>).
  \<^item> \<open>PyStr\<close>: the \<^verbatim>\<open>str\<close> methods the code calls (\<^verbatim>\<open>strip\<close>, \<^verbatim>\<open>lower\<close>,
    \<^verbatim>\<open>split(c)\<close>, \<^verbatim>\<open>split(c, 1)\<close>, \<^verbatim>\<open>split()\<close>, \<^verbatim>\<open>split(None, 1)\<close>,
    \<^verbatim>\<open>join\<close>) with CPython's whitespace and case tables on code points
    below 256, and their split/join round trips.
  \<^item> \<open>PyFloat\<close>: binary64 floats (\<open>pyfloat\<close>: signed rational magnitude,
    the infinities, NaN), correctly rounded to nearest-even with subnormals
    and overflow (\<open>round_b64\<close>, \<open>mk_float\<close>); \<^verbatim>\<open>*\<close> (\<open>fmul\<close>), \<^verbatim>\<open>/\<close>
    (\<open>fdiv\<close>, ZeroDivisionError on a zero divisor), \<^verbatim>\<open>**2\<close> (\<open>fpow2\<close>,
    OverflowError on a finite overflow), \<^verbatim>\<open>float(str)\<close> (\<open>py_float\<close>, CPython's
    grammar with underscores, whitespace, \<^verbatim>\<open>inf\<close>/\<^verbatim>\<open>nan\<close>) and
    \<^verbatim>\<open>"{: .15e}".format\<close> (\<open>fmt_e15\<close>, 16 significant digits rounded
    half-even), with the \<open>\<lfloor>log_b\<rfloor>\<close> bounds and the overflow test.
  \<^item> \<open>Binary64\<close>: the type invariant \<open>wf_float\<close> of the float model, kept
    by \<open>fmul\<close>, \<open>fdiv\<close>, \<open>fpow2\<close> and \<open>py_float\<close>, and the rounding error
    bound of a product.
  \<^item> \<open>FormatParse\<close>: \<^verbatim>\<open>float\<close> reads back the text \<open>fmt_e15\<close> writes as
    its 16-digit decimal \<open>e15_value\<close> rounded to binary64 (\<open>e15_float\<close>,
    lemma \<open>py_float_fmt_e15\<close>), within a relative \<open>10^-15\<close> of the original.
  \<^item> \<open>Rescale\<close>: the three nested routines of lines 14--69, one definition
    each, sharing the token parser \<open>parse_token\<close>, \<open>scale_values\<close>,
    \<open>format_values\<close> and \<open>keep_newline\<close> as the source repeats them.
    C17: \<^verbatim>\<open>rescale_multiarrayline\<close> does not strip a comma from the last
    value of a line, so \<^verbatim>\<open>float\<close> rejects it.
  \<^item> \<open>Reread\<close>: the routines applied to their own output (the spec's
    round-trip law): rescaling twice multiplies the re-read values of the
    first pass by the second factor (C13 for \<^verbatim>\<open>rescale_followup\<close>, C14 for
    \<^verbatim>\<open>rescale_arrayline\<close>, whose key gains a space per pass), and each value
    of a continuation line rescaled by \<open>n\<close> and then \<open>k\<close> reads back within
    a relative \<open>10^-14\<close> of the exact product (C18). The bounds of C18
    (products between \<open>2^-1020\<close> and \<open>2^1000\<close>) keep both passes in the
    normal range, where the error of rounding is relative, and away from
    overflow; the theorem proves the values finite, it does not assume it.
  \<^item> \<open>Patch\<close>: the rule table \<open>field_rule\<close> (the \<^verbatim>\<open>elif\<close> chain, in the
    source's order), the factor expressions \<open>eval_factor\<close>, the line step
    \<open>patch_step\<close> on the loop state \<open>patch_state\<close> (\<^verbatim>\<open>scale\<close>, unbound as
    \<open>None\<close>, and \<^verbatim>\<open>new_lines\<close>), the loop \<open>patch_run\<close> and \<open>patch_lines\<close>
    (lines 73--151). Its lemmas decompose a run line by line
    (\<open>patch_run_nth\<close>) and state what \<^verbatim>\<open>scale\<close> holds after any prefix
    (\<open>patch_run_scale\<close>: the factor of the last assignment line). The
    properties: one output line per input line (C1), continuation lines
    rescaled with the last assignment's factor (C2) and failing with
    UnboundLocalError before any assignment (C3), what an assignment line
    (C4) and a passed-through line (C5) become, comments kept (C6), the
    \<^verbatim>\<open>elif\<close> chain equal to the spec's first-match table (C7), the
    continuation of an unrecognised field re-rendered with factor 1.0
    rather than passed through (C15), and \<^verbatim>\<open>R_scale = 0\<close> raising
    ZeroDivisionError on every \<^verbatim>\<open>ac\<close> field (C16). \<open>unit_scaling\<close> (lines
    8--11) is the closure of the source: it returns its line when the
    enclosing \<^verbatim>\<open>scale\<close> is None, raises ValueError when it is a float and
    NameError when it is unbound; it is never called.
  \<^item> \<open>Driver\<close>: the file handling and the command line (lines 71--72,
    154--179). Files are a store \<open>fstore\<close> from paths to text; reading
    translates \<^verbatim>\<open>\r\n\<close> and \<^verbatim>\<open>\r\<close> to \<^verbatim>\<open>\n\<close> (text mode) and
    \<open>py_readlines\<close> cuts after each newline; \<open>scale_vmec\<close> returns the final
    store and the exception raised, and \<open>scale_vmec_main\<close> the printed
    events, the store and the exception of the \<^verbatim>\<open>__main__\<close> block: usage
    (C8), no write on error (C9), at most the output file written (C10),
    the result of a successful run with \<^verbatim>\<open>B_scale\<close> before \<^verbatim>\<open>R_scale\<close>
    (C11), what is printed (C12).

  \<^bold>\<open>Loops and termination.\<close> Every loop of the program runs over a finite
  list (the file's lines, a line's tokens, a text's characters), so every
  definition is a structurally recursive \<^theory_text>\<open>fun\<close> or a \<^theory_text>\<open>function\<close>
  with a measure (the digit counters of \<open>PyFloat\<close>); no fuel is needed and
  every definition is executable, so the witnesses of the properties are
  evaluated by the kernel (\<open>code_simp\<close>).

  \<^bold>\<open>Not modelled.\<close> The variable \<^verbatim>\<open>func\<close> is written and never read,
  so it is not part of the loop state. The \<^verbatim>\<open>try\<close>/\<^verbatim>\<open>except\<close> around the
  numpy product (lines 21--25, 61--65) never fires on a list of floats and
  is modelled as the plain product; \<^verbatim>\<open>import\<close> lines and the shebang have
  no behaviour. Text is modelled as decoded code points below 256 (a
  file that is not valid in the locale's encoding raises UnicodeDecodeError
  in Python; this is not modelled). The store maps a path to the contents of
  a readable file; a missing input is FileNotFoundError, and the other
  \<^verbatim>\<open>OSError\<close>s of \<^verbatim>\<open>open\<close> (permissions, directories, a full disk during
  \<^verbatim>\<open>writelines\<close>) are not modelled. The digits of \<^verbatim>\<open>str(float)\<close> in the
  echo line are not modelled: the event records the two floats.
  \<^verbatim>\<open>x**2\<close> is modelled as the correctly rounded square, which glibc's
  \<^verbatim>\<open>pow\<close> is not required to be (it is within one unit in the last place);
  NaN payloads are not modelled.
\<close>


end
